theory Spec2Isabelle
  imports Complex_Main
begin

section \<open>JavaScript values\<close>

text \<open>
  The values that flow through \<^verbatim>\<open>SqlUtil\<close> are request data: JSON-like values,
  \<^verbatim>\<open>undefined\<close>, and the \<^verbatim>\<open>Date\<close> objects that \<^verbatim>\<open>toSQLDateTime\<close> creates.

  A number is a rational or one of the three special values of the JavaScript number
  type. Subtraction and multiplication round their exact result to the nearest double
  (binary64, ties to even, overflow to an infinity), as the host does. The sign of zero
  is not modelled.

  An object is the list of its own enumerable properties in enumeration order, with
  pairwise distinct names. Property names are ordinary names: the name
  \<^verbatim>\<open>__proto__\<close>, array-like objects (a \<^verbatim>\<open>length\<close> property held as data) and the
  reordering of index-like names are outside the model. Arrays have no holes.
\<close>

datatype jsnum = Fin rat | PosInf | NegInf | NaN

datatype jsval =
    JUndefined
  | JNull
  | JBool bool
  | JNum jsnum
  | JStr string
  | JDate jsnum
  | JArr "jsval list"
  | JObj "(string \<times> jsval) list"

type_synonym props = "(string \<times> jsval) list"

datatype error = TypeError | StoreError string

text \<open>\<^verbatim>\<open>obj[key]\<close> on the own properties of an object: \<^verbatim>\<open>undefined\<close> when absent.\<close>

definition get_prop :: "props \<Rightarrow> string \<Rightarrow> jsval" where
  "get_prop ps k = (case map_of ps k of None \<Rightarrow> JUndefined | Some v \<Rightarrow> v)"

text \<open>\<^verbatim>\<open>obj[key] = v\<close>: an existing property keeps its place, a new one goes last.\<close>

fun set_prop :: "props \<Rightarrow> string \<Rightarrow> jsval \<Rightarrow> props" where
  "set_prop [] k v = [(k, v)]"
| "set_prop (p # ps) k v = (if fst p = k then (k, v) # ps else p # set_prop ps k v)"

text \<open>\<^verbatim>\<open>delete obj[key]\<close>.\<close>

definition delete_prop :: "props \<Rightarrow> string \<Rightarrow> props" where
  "delete_prop ps k = filter (\<lambda>p. fst p \<noteq> k) ps"

text \<open>\<^verbatim>\<open>arr[i]\<close>: \<^verbatim>\<open>undefined\<close> past the end.\<close>

definition index :: "jsval list \<Rightarrow> nat \<Rightarrow> jsval" where
  "index xs i = (if i < length xs then xs ! i else JUndefined)"

text \<open>Truthiness (\<^verbatim>\<open>ToBoolean\<close>).\<close>

fun truthy :: "jsval \<Rightarrow> bool" where
  "truthy JUndefined = False"
| "truthy JNull = False"
| "truthy (JBool b) = b"
| "truthy (JNum n) = (n \<noteq> Fin 0 \<and> n \<noteq> NaN)"
| "truthy (JStr s) = (s \<noteq> [])"
| "truthy (JDate t) = True"
| "truthy (JArr xs) = True"
| "truthy (JObj ps) = True"

text \<open>
  \<^verbatim>\<open>v.name\<close> for a name that is no built-in property (\<^verbatim>\<open>country\<close>, \<^verbatim>\<open>province\<close>,
  \<^verbatim>\<open>city\<close>): a \<^verbatim>\<open>TypeError\<close> on \<^verbatim>\<open>null\<close> and \<^verbatim>\<open>undefined\<close>, the own
  property on an object, \<^verbatim>\<open>undefined\<close> on every other value.
\<close>

fun member :: "jsval \<Rightarrow> string \<Rightarrow> error + jsval" where
  "member JUndefined k = Inl TypeError"
| "member JNull k = Inl TypeError"
| "member (JObj ps) k = Inr (get_prop ps k)"
| "member v k = Inr JUndefined"

text \<open>The decimal spelling of an array index, as \<^verbatim>\<open>Object.keys\<close> reports it.\<close>

definition digit :: "nat \<Rightarrow> char" where
  "digit d = char_of (48 + d)"

fun index_name :: "nat \<Rightarrow> string" where
  "index_name n = (if n < 10 then [digit n] else index_name (n div 10) @ [digit (n mod 10)])"

declare index_name.simps [simp del]

text \<open>
  The own enumerable properties of a value, as \<^verbatim>\<open>Object.keys(v)\<close> followed by
  \<^verbatim>\<open>v[key]\<close> sees them: a \<^verbatim>\<open>TypeError\<close> on \<^verbatim>\<open>null\<close> and \<^verbatim>\<open>undefined\<close>, the
  indexed elements of an array, the indexed characters of a string, nothing on a number,
  a boolean or a date.
\<close>

fun own_props :: "jsval \<Rightarrow> error + props" where
  "own_props JUndefined = Inl TypeError"
| "own_props JNull = Inl TypeError"
| "own_props (JObj ps) = Inr ps"
| "own_props (JArr xs) = Inr (map (\<lambda>i. (index_name i, xs ! i)) [0..<length xs])"
| "own_props (JStr s) = Inr (map (\<lambda>i. (index_name i, JStr [s ! i])) [0..<length s])"
| "own_props v = Inr []"

text \<open>\<^verbatim>\<open>xs.map(f)\<close> with a callback that may throw: the first throw ends the call.\<close>

fun map_throw :: "('a \<Rightarrow> error + 'b) \<Rightarrow> 'a list \<Rightarrow> error + 'b list" where
  "map_throw f [] = Inr []"
| "map_throw f (x # xs) =
     (case f x of
        Inl e \<Rightarrow> Inl e
      | Inr y \<Rightarrow> (case map_throw f xs of Inl e \<Rightarrow> Inl e | Inr ys \<Rightarrow> Inr (y # ys)))"

section \<open>Condition translation (\<^verbatim>\<open>sqlUtil.js\<close>)\<close>

text \<open>\<^verbatim>\<open>removeNullValues\<close>: copies every own property whose value is not \<^verbatim>\<open>null\<close>.\<close>

definition removeNullValues :: "jsval \<Rightarrow> error + props" where
  "removeNullValues obj =
     (case own_props obj of
        Inl e \<Rightarrow> Inl e
      | Inr ps \<Rightarrow> Inr (foldl (\<lambda>newObj (key, v). if v \<noteq> JNull then set_prop newObj key v else newObj) [] ps))"

text \<open>The callback of \<^verbatim>\<open>value.map\<close> in the address branch of \<^verbatim>\<open>handleConditions\<close>.\<close>

definition addressClause :: "string \<Rightarrow> jsval \<Rightarrow> error + jsval" where
  "addressClause key param =
     (case removeNullValues param of
        Inl e \<Rightarrow> Inl e
      | Inr result \<Rightarrow>
          (case member param ''country'' of
             Inl e \<Rightarrow> Inl e
           | Inr country \<Rightarrow>
          (case member param ''province'' of
             Inl e \<Rightarrow> Inl e
           | Inr province \<Rightarrow>
          (case member param ''city'' of
             Inl e \<Rightarrow> Inl e
           | Inr city \<Rightarrow>
               if truthy country \<and> \<not> truthy province \<and> \<not> truthy city
               then Inr (JObj [(key, JObj [(''path'', JArr [JStr ''country'']), (''equals'', country)])])
               else Inr (JObj [(key, JObj [(''equals'', JObj result)])])))))"

text \<open>
  The body of the \<^verbatim>\<open>for (const key in conditions)\<close> loop for one own property.
  \<^verbatim>\<open>value.map\<close> exists on arrays only, so any other value of an address key is a
  \<^verbatim>\<open>TypeError\<close>.
\<close>

definition handleCondition ::
  "string list \<Rightarrow> string list \<Rightarrow> string list \<Rightarrow> string list \<Rightarrow> string list \<Rightarrow>
     props \<Rightarrow> string \<times> jsval \<Rightarrow> error + props" where
  "handleCondition rangeField ListField addressField logicAndListField searchField wh kv =
     (case kv of (key, value) \<Rightarrow>
        if key \<in> set addressField then
          (case value of
             JArr params \<Rightarrow>
               (case map_throw (addressClause key) params of
                  Inl e \<Rightarrow> Inl e
                | Inr clauses \<Rightarrow> Inr (set_prop wh ''OR'' (JArr clauses)))
           | _ \<Rightarrow> Inl TypeError)
        else
          (case value of
             JArr vs \<Rightarrow>
               if key \<in> set rangeField then
                 Inr (set_prop wh key (JObj [(''gte'', index vs 0), (''lte'', index vs 1)]))
               else if key \<in> set logicAndListField then
                 Inr (set_prop wh key (JObj [(''hasEvery'', value)]))
               else if key \<in> set ListField then
                 Inr (set_prop wh key (JObj [(''hasSome'', value)]))
               else
                 Inr (set_prop wh key (JObj [(''in'', value)]))
           | _ \<Rightarrow>
               if key \<in> set searchField then
                 Inr (set_prop wh key (JObj [(''contains'', value)]))
               else
                 Inr (set_prop wh key (JObj [(''equals'', value)]))))"

text \<open>The loop over the own properties of \<^verbatim>\<open>conditions\<close>, in enumeration order.\<close>

fun handleConditions_loop ::
  "string list \<Rightarrow> string list \<Rightarrow> string list \<Rightarrow> string list \<Rightarrow> string list \<Rightarrow>
     props \<Rightarrow> props \<Rightarrow> error + props" where
  "handleConditions_loop rf lf af andf sf wh [] = Inr wh"
| "handleConditions_loop rf lf af andf sf wh (kv # rest) =
     (case handleCondition rf lf af andf sf wh kv of
        Inl e \<Rightarrow> Inl e
      | Inr wh' \<Rightarrow> handleConditions_loop rf lf af andf sf wh' rest)"

definition handleConditions ::
  "props \<Rightarrow> string list \<Rightarrow> string list \<Rightarrow> string list \<Rightarrow> string list \<Rightarrow> string list \<Rightarrow>
     error + props" where
  "handleConditions conditions rangeField ListField addressField logicAndListField searchField =
     handleConditions_loop rangeField ListField addressField logicAndListField searchField []
       conditions"

section \<open>Condition translation of the simpler module version\<close>

text \<open>
  The second source file is an earlier \<^verbatim>\<open>SqlUtil\<close> without logic-AND list fields and
  search fields. Its \<^verbatim>\<open>handleConditions\<close> walks an address value with an indexed
  loop and pushes one path clause for each of \<^verbatim>\<open>city\<close>, \<^verbatim>\<open>country\<close> and
  \<^verbatim>\<open>province\<close> that is truthy.
\<close>

text \<open>
  What \<^verbatim>\<open>for (let i = 0; i < value.length; i++) value[i]\<close> visits: the elements of
  an array, the characters of a string, nothing on a value without a \<^verbatim>\<open>length\<close>;
  reading \<^verbatim>\<open>length\<close> of \<^verbatim>\<open>null\<close> or \<^verbatim>\<open>undefined\<close> is a \<^verbatim>\<open>TypeError\<close>.
\<close>

fun elements :: "jsval \<Rightarrow> error + jsval list" where
  "elements JUndefined = Inl TypeError"
| "elements JNull = Inl TypeError"
| "elements (JArr xs) = Inr xs"
| "elements (JStr s) = Inr (map (\<lambda>c. JStr [c]) s)"
| "elements v = Inr []"

text \<open>The clauses that one pass of the loop body pushes, in the order city, country, province.\<close>

definition addressPaths :: "string \<Rightarrow> jsval \<Rightarrow> error + jsval list" where
  "addressPaths key address =
     (case member address ''city'' of
        Inl e \<Rightarrow> Inl e
      | Inr city \<Rightarrow>
     (case member address ''country'' of
        Inl e \<Rightarrow> Inl e
      | Inr country \<Rightarrow>
     (case member address ''province'' of
        Inl e \<Rightarrow> Inl e
      | Inr province \<Rightarrow>
          Inr ((if truthy city
                then [JObj [(key, JObj [(''path'', JArr [JStr ''city'']), (''equals'', city)])]]
                else []) @
               (if truthy country
                then [JObj [(key, JObj [(''path'', JArr [JStr ''country'']), (''equals'', country)])]]
                else []) @
               (if truthy province
                then [JObj [(key, JObj [(''path'', JArr [JStr ''province'']), (''equals'', province)])]]
                else [])))))"

fun addressFilter_loop :: "string \<Rightarrow> jsval list \<Rightarrow> jsval list \<Rightarrow> error + jsval list" where
  "addressFilter_loop key addressFilter [] = Inr addressFilter"
| "addressFilter_loop key addressFilter (address # rest) =
     (case addressPaths key address of
        Inl e \<Rightarrow> Inl e
      | Inr pushed \<Rightarrow> addressFilter_loop key (addressFilter @ pushed) rest)"

definition handleCondition_simple ::
  "string list \<Rightarrow> string list \<Rightarrow> string list \<Rightarrow> props \<Rightarrow> string \<times> jsval \<Rightarrow> error + props" where
  "handleCondition_simple rangeField ListField addressField wh kv =
     (case kv of (key, value) \<Rightarrow>
        if key \<in> set addressField then
          (case elements value of
             Inl e \<Rightarrow> Inl e
           | Inr addresses \<Rightarrow>
               (case addressFilter_loop key [] addresses of
                  Inl e \<Rightarrow> Inl e
                | Inr addressFilter \<Rightarrow> Inr (set_prop wh ''OR'' (JArr addressFilter))))
        else
          (case value of
             JArr vs \<Rightarrow>
               if key \<in> set rangeField then
                 Inr (set_prop wh key (JObj [(''gte'', index vs 0), (''lte'', index vs 1)]))
               else if key \<in> set ListField then
                 Inr (set_prop wh key (JObj [(''hasSome'', value)]))
               else
                 Inr (set_prop wh key (JObj [(''in'', value)]))
           | _ \<Rightarrow> Inr (set_prop wh key (JObj [(''equals'', value)]))))"

fun handleConditions_simple_loop ::
  "string list \<Rightarrow> string list \<Rightarrow> string list \<Rightarrow> props \<Rightarrow> props \<Rightarrow> error + props" where
  "handleConditions_simple_loop rf lf af wh [] = Inr wh"
| "handleConditions_simple_loop rf lf af wh (kv # rest) =
     (case handleCondition_simple rf lf af wh kv of
        Inl e \<Rightarrow> Inl e
      | Inr wh' \<Rightarrow> handleConditions_simple_loop rf lf af wh' rest)"

definition handleConditions_simple ::
  "props \<Rightarrow> string list \<Rightarrow> string list \<Rightarrow> string list \<Rightarrow> error + props" where
  "handleConditions_simple conditions rangeField ListField addressField =
     handleConditions_simple_loop rangeField ListField addressField [] conditions"

text \<open>
  An address object that names a country and neither a province nor a city: the shape on
  which both versions emit the same single clause.
\<close>

fun country_only :: "jsval \<Rightarrow> bool" where
  "country_only (JObj ps) =
     (truthy (get_prop ps ''country'') \<and> \<not> truthy (get_prop ps ''province'') \<and>
      \<not> truthy (get_prop ps ''city''))"
| "country_only v = False"

fun country_only_list :: "jsval \<Rightarrow> bool" where
  "country_only_list (JArr params) = list_all country_only params"
| "country_only_list v = False"

section \<open>Double-precision arithmetic\<close>

text \<open>The number of binary digits of a positive integer.\<close>

function bit_length :: "int \<Rightarrow> nat" where
  "bit_length n = (if n \<le> 0 then 0 else Suc (bit_length (n div 2)))"
  by pat_completeness auto
termination
  by (relation "measure nat") auto

declare bit_length.simps [simp del]

text \<open>The binary exponent of a positive rational \<open>x\<close>: the \<open>e\<close> with \<open>2^e \<le> x < 2^(e+1)\<close>.\<close>

definition exponent :: "rat \<Rightarrow> int" where
  "exponent x =
     (if 1 \<le> x then int (bit_length \<lfloor>x\<rfloor>) - 1
      else (let m = bit_length \<lfloor>1 / x\<rfloor> - 1
            in if 1 / x = 2 ^ m then - int m else - int m - 1))"

definition pow2 :: "int \<Rightarrow> rat" where
  "pow2 k = (if 0 \<le> k then 2 ^ nat k else 1 / 2 ^ nat (- k))"

definition round_half_even :: "rat \<Rightarrow> int" where
  "round_half_even q =
     (let f = \<lfloor>q\<rfloor>; d = q - of_int f
      in if d < 1 / 2 then f else if 1 / 2 < d then f + 1 else if even f then f else f + 1)"

text \<open>
  The double nearest to a rational: 53 significant bits, exponent at least \<open>-1022\<close>
  (below it the subnormal spacing \<open>2^-1074\<close>), ties to the even significand, and an
  infinity when the rounded magnitude reaches \<open>2^1024\<close>.
\<close>

definition round_double :: "rat \<Rightarrow> jsnum" where
  "round_double x =
     (if x = 0 then Fin 0
      else (let e = max (exponent \<bar>x\<bar>) (- 1022);
                ulp = pow2 (e - 52);
                m = round_half_even (\<bar>x\<bar> / ulp)
            in if 1024 \<le> e \<or> (e = 1023 \<and> m = 9007199254740992)
               then (if 0 < x then PosInf else NegInf)
               else Fin (if 0 < x then of_int m * ulp else - (of_int m * ulp))))"

text \<open>The operators \<^verbatim>\<open>-\<close> and \<^verbatim>\<open>*\<close> on numbers.\<close>

fun js_sub :: "jsnum \<Rightarrow> jsnum \<Rightarrow> jsnum" where
  "js_sub (Fin a) (Fin b) = round_double (a - b)"
| "js_sub (Fin a) PosInf = NegInf"
| "js_sub (Fin a) NegInf = PosInf"
| "js_sub PosInf (Fin b) = PosInf"
| "js_sub PosInf NegInf = PosInf"
| "js_sub NegInf (Fin b) = NegInf"
| "js_sub NegInf PosInf = NegInf"
| "js_sub a b = NaN"

fun js_mul :: "jsnum \<Rightarrow> jsnum \<Rightarrow> jsnum" where
  "js_mul (Fin a) (Fin b) = round_double (a * b)"
| "js_mul (Fin a) PosInf = (if a = 0 then NaN else if 0 < a then PosInf else NegInf)"
| "js_mul (Fin a) NegInf = (if a = 0 then NaN else if 0 < a then NegInf else PosInf)"
| "js_mul PosInf (Fin b) = (if b = 0 then NaN else if 0 < b then PosInf else NegInf)"
| "js_mul NegInf (Fin b) = (if b = 0 then NaN else if 0 < b then NegInf else PosInf)"
| "js_mul PosInf PosInf = PosInf"
| "js_mul PosInf NegInf = NegInf"
| "js_mul NegInf PosInf = NegInf"
| "js_mul NegInf NegInf = PosInf"
| "js_mul a b = NaN"

section \<open>Pagination and the paginated fetch\<close>

text \<open>
  A page number or page size is an integer, \<^verbatim>\<open>null\<close> or \<^verbatim>\<open>undefined\<close> (the
  parameters are documented as numbers and count pages and rows). The offset is computed
  with the operators of the number type, so it is rounded, or infinite, where the exact
  result is no double. An argument \<open>PNumber n\<close> is the number \<open>n\<close>, which the caller
  can pass when \<open>n\<close> is a double.
\<close>

datatype pagearg = PUndefined | PNull | PNumber int

text \<open>\<^verbatim>\<open>x || d\<close>: the default replaces every falsy argument.\<close>

fun or_default :: "pagearg \<Rightarrow> int \<Rightarrow> int" where
  "or_default PUndefined d = d"
| "or_default PNull d = d"
| "or_default (PNumber n) d = (if n = 0 then d else n)"

record pagination =
  p_take :: int
  p_skip :: jsnum

definition getPagination :: "pagearg \<Rightarrow> pagearg \<Rightarrow> pagination" where
  "getPagination pageNumber pageSize =
     (let page = or_default pageNumber 1;
          limit = or_default pageSize 20;
          skip = js_mul (js_sub (Fin (of_int page)) (Fin 1)) (Fin (of_int limit));
          take = limit
      in \<lparr>p_take = take, p_skip = skip\<rparr>)"

text \<open>\<^verbatim>\<open>ToNumber\<close> on a page argument, as the division applies it.\<close>

fun number_of_pagearg :: "pagearg \<Rightarrow> jsnum" where
  "number_of_pagearg PUndefined = NaN"
| "number_of_pagearg PNull = Fin 0"
| "number_of_pagearg (PNumber n) = Fin (of_int n)"

text \<open>
  Division and \<^verbatim>\<open>Math.ceil\<close>. The quotient is kept exact: the code passes it to
  \<^verbatim>\<open>Math.ceil\<close> and to nothing else, and for a count below \<open>2^53\<close> the rounded
  quotient has the same ceiling.
\<close>

fun js_div :: "jsnum \<Rightarrow> jsnum \<Rightarrow> jsnum" where
  "js_div (Fin a) (Fin b) =
     (if b = 0 then (if a = 0 then NaN else if 0 < a then PosInf else NegInf) else Fin (a / b))"
| "js_div (Fin a) PosInf = Fin 0"
| "js_div (Fin a) NegInf = Fin 0"
| "js_div PosInf (Fin b) = (if 0 \<le> b then PosInf else NegInf)"
| "js_div NegInf (Fin b) = (if 0 \<le> b then NegInf else PosInf)"
| "js_div a b = NaN"

fun js_ceil :: "jsnum \<Rightarrow> jsnum" where
  "js_ceil (Fin a) = Fin (of_int \<lceil>a\<rceil>)"
| "js_ceil a = a"

text \<open>
  The part of the data store client that \<^verbatim>\<open>SqlUtil\<close> calls. Each call either
  resolves with a value or rejects with an error. \<^verbatim>\<open>findMany\<close> gets its argument
  object as a record, \<^verbatim>\<open>count\<close> the \<^verbatim>\<open>where\<close> predicate, and the mutating calls
  their argument object as a value.
\<close>

record find_args =
  fa_where :: props
  fa_orderBy :: jsval
  fa_take :: int
  fa_skip :: jsnum

record collection =
  findMany :: "find_args \<Rightarrow> error + jsval list"
  count_where :: "props \<Rightarrow> error + int"
  create :: "jsval \<Rightarrow> error + jsval"
  createMany :: "jsval \<Rightarrow> error + unit"
  delete_where :: "jsval \<Rightarrow> error + unit"
  updateMany :: "jsval \<Rightarrow> error + unit"

record envelope =
  env_data :: jsval
  env_total :: int
  env_totalPages :: jsnum
  env_currentPage :: pagearg

text \<open>\<^verbatim>\<open>onDataProcess?.(data) ?? data\<close> with an optional callback.\<close>

definition process :: "(jsval \<Rightarrow> jsval) option \<Rightarrow> jsval \<Rightarrow> jsval" where
  "process onDataProcess data =
     (case onDataProcess of
        None \<Rightarrow> data
      | Some f \<Rightarrow> (if f data = JNull \<or> f data = JUndefined then data else f data))"

text \<open>
  \<^verbatim>\<open>fetchDataWithPagination\<close>. Nothing is caught: a failure of the translation
  or of a store call ends the call with that error.
\<close>

definition fetchDataWithPagination ::
  "pagearg \<Rightarrow> pagearg \<Rightarrow> props \<Rightarrow> collection \<Rightarrow> jsval \<Rightarrow>
     string list \<Rightarrow> string list \<Rightarrow> string list \<Rightarrow> string list \<Rightarrow> string list \<Rightarrow>
     (jsval \<Rightarrow> jsval) option \<Rightarrow> error + envelope" where
  "fetchDataWithPagination pageNumber pageSize conditions collection orderByField
       rangeField ListField addressField logicAndListField searchField onDataProcess =
     (let p = getPagination pageNumber pageSize in
      case handleConditions conditions rangeField ListField addressField logicAndListField
             searchField of
        Inl e \<Rightarrow> Inl e
      | Inr query \<Rightarrow>
     (case findMany collection
             \<lparr>fa_where = query, fa_orderBy = orderByField, fa_take = p_take p, fa_skip = p_skip p\<rparr> of
        Inl e \<Rightarrow> Inl e
      | Inr data \<Rightarrow>
     (case count_where collection query of
        Inl e \<Rightarrow> Inl e
      | Inr totalCount \<Rightarrow>
          (let totalPages = js_ceil (js_div (Fin (of_int totalCount)) (number_of_pagearg pageSize));
               result = process onDataProcess (JArr data)
           in Inr \<lparr>env_data = result, env_total = totalCount, env_totalPages = totalPages,
                    env_currentPage = pageNumber\<rparr>))))"

section \<open>Date-time normalisation and field projection\<close>

text \<open>
  The built-ins of the host that the code calls and the model does not define:
  \<^verbatim>\<open>Date.parse\<close>, and \<^verbatim>\<open>ToNumber\<close> on strings and arrays (which may throw, as
  an array is joined from its elements).
\<close>

record host =
  date_parse :: "string \<Rightarrow> jsnum"
  coerce :: "jsval \<Rightarrow> error + jsnum"

text \<open>
  \<^verbatim>\<open>ToNumber\<close>, as the multiplication applies it to its operand. A plain object is
  converted through \<^verbatim>\<open>valueOf\<close> and \<^verbatim>\<open>toString\<close>: the inherited \<^verbatim>\<open>valueOf\<close> (or
  an own one, which as data is not callable) yields no primitive, and the inherited
  \<^verbatim>\<open>toString\<close> yields \<^verbatim>\<open>[object Object]\<close>, which is \<^verbatim>\<open>NaN\<close>; an own
  \<^verbatim>\<open>toString\<close> property is not callable either, and the conversion throws a
  \<^verbatim>\<open>TypeError\<close>.
\<close>

fun to_number :: "host \<Rightarrow> jsval \<Rightarrow> error + jsnum" where
  "to_number h JUndefined = Inr NaN"
| "to_number h JNull = Inr (Fin 0)"
| "to_number h (JBool b) = Inr (Fin (if b then 1 else 0))"
| "to_number h (JNum n) = Inr n"
| "to_number h (JDate t) = Inr t"
| "to_number h (JObj ps) = (if ''toString'' \<in> fst ` set ps then Inl TypeError else Inr NaN)"
| "to_number h v = coerce h v"

text \<open>
  \<^verbatim>\<open>new Date(t)\<close>: the time value is \<open>t\<close> cut to whole milliseconds, and the date
  is invalid (time value \<^verbatim>\<open>NaN\<close>) when \<open>t\<close> is not finite or beyond 8.64e15.
\<close>

fun new_Date :: "jsnum \<Rightarrow> jsval" where
  "new_Date (Fin t) =
     (if 8640000000000000 < \<bar>t\<bar> then JDate NaN
      else JDate (Fin (of_int (if 0 \<le> t then \<lfloor>t\<rfloor> else \<lceil>t\<rceil>))))"
| "new_Date t = JDate NaN"

text \<open>
  \<^verbatim>\<open>toSQLDateTime\<close>. Of the values whose \<^verbatim>\<open>typeof\<close> is \<^verbatim>\<open>object\<close>, only a plain
  object can have a \<^verbatim>\<open>_seconds\<close> property; \<^verbatim>\<open>null\<close>, arrays and dates take the last
  branch. The one step that can throw is the conversion of \<^verbatim>\<open>seconds\<close> to a number in
  \<^verbatim>\<open>seconds * 1000\<close>.
\<close>

definition toSQLDateTime :: "host \<Rightarrow> jsval \<Rightarrow> error + jsval" where
  "toSQLDateTime h input =
     (case input of
        JStr s \<Rightarrow>
          (let timestamp = date_parse h s
           in if timestamp \<noteq> NaN then Inr (new_Date timestamp) else Inr JNull)
      | JObj ps \<Rightarrow>
          if ''_seconds'' \<in> fst ` set ps then
            (let seconds = get_prop ps ''_seconds''
             in case to_number h seconds of
                  Inl e \<Rightarrow> Inl e
                | Inr n \<Rightarrow> Inr (new_Date (js_mul n (Fin 1000))))
          else Inr JNull
      | _ \<Rightarrow> Inr JNull)"

text \<open>\<^verbatim>\<open>{...data}\<close>: the own properties of the value, none for \<^verbatim>\<open>null\<close> and \<^verbatim>\<open>undefined\<close>.\<close>

definition spread :: "jsval \<Rightarrow> props" where
  "spread data = (case own_props data of Inl e \<Rightarrow> [] | Inr ps \<Rightarrow> ps)"

record options =
  opt_dateFields :: "string list option"
  opt_allFields :: "string list option"

text \<open>The body of the \<^verbatim>\<open>for (const key in result)\<close> loop of \<^verbatim>\<open>transformData\<close>.\<close>

definition transformKey ::
  "host \<Rightarrow> string list \<Rightarrow> string list \<Rightarrow> props \<Rightarrow> string \<Rightarrow> error + props" where
  "transformKey h dateFields allFields result key =
     (let result1 = (if key \<notin> set allFields then delete_prop result key else result);
          val = get_prop result1 key;
          result2 = (if val = JNull \<or> val = JUndefined then delete_prop result1 key else result1)
      in if key \<in> set dateFields
         then (case toSQLDateTime h (get_prop result2 key) of
                 Inl e \<Rightarrow> Inl e
               | Inr d \<Rightarrow> Inr (set_prop result2 key d))
         else Inr result2)"

fun transformData_loop ::
  "host \<Rightarrow> string list \<Rightarrow> string list \<Rightarrow> props \<Rightarrow> string list \<Rightarrow> error + props" where
  "transformData_loop h dateFields allFields result [] = Inr result"
| "transformData_loop h dateFields allFields result (key # keys) =
     (case transformKey h dateFields allFields result key of
        Inl e \<Rightarrow> Inl e
      | Inr result' \<Rightarrow> transformData_loop h dateFields allFields result' keys)"

text \<open>
  \<^verbatim>\<open>transformData\<close>. The loop visits the keys that \<^verbatim>\<open>result\<close> has when it starts,
  each once; a key that the body deletes and sets again goes to the end of the object
  and is not visited a second time. A throw of \<^verbatim>\<open>toSQLDateTime\<close> ends the call.
\<close>

definition transformData :: "host \<Rightarrow> jsval \<Rightarrow> options option \<Rightarrow> error + props" where
  "transformData h data opts =
     (let dateFields = (case opts of None \<Rightarrow> [] | Some os \<Rightarrow>
                          (case opt_dateFields os of None \<Rightarrow> [] | Some fs \<Rightarrow> fs));
          allFields = (case opts of None \<Rightarrow> [] | Some os \<Rightarrow>
                          (case opt_allFields os of None \<Rightarrow> [] | Some fs \<Rightarrow> fs));
          result = spread data
      in transformData_loop h dateFields allFields result (map fst result))"

section \<open>Mutating operations\<close>

text \<open>
  What a mutating operation does besides returning: it calls the store, writes to
  \<^verbatim>\<open>console.error\<close>, and calls \<^verbatim>\<open>prisma.$disconnect()\<close>. The model returns the
  sequence of these events with the outcome of the call, which is the returned object or,
  when \<^verbatim>\<open>$disconnect\<close> itself rejects inside \<^verbatim>\<open>finally\<close>, that error.
\<close>

datatype event = StoreCall | ConsoleError | Disconnect

record prisma =
  disconnect :: "error + unit"

definition finally_disconnect ::
  "prisma \<Rightarrow> jsval \<times> event list \<Rightarrow> (error + jsval) \<times> event list" where
  "finally_disconnect prisma r =
     (case disconnect prisma of
        Inl e \<Rightarrow> (Inl e, snd r @ [Disconnect])
      | Inr u \<Rightarrow> (Inr (fst r), snd r @ [Disconnect]))"

definition createData :: "prisma \<Rightarrow> collection \<Rightarrow> jsval \<Rightarrow> (error + jsval) \<times> event list" where
  "createData prisma collection data =
     finally_disconnect prisma
       (case create collection (JObj [(''data'', data)]) of
          Inr newData \<Rightarrow>
            (JObj [(''success'', JBool True), (''data'', newData)], [StoreCall])
        | Inl error \<Rightarrow>
            (JObj [(''success'', JBool False), (''error'', JStr ''Error creating data'')],
             [StoreCall, ConsoleError]))"

definition batchCreateData :: "prisma \<Rightarrow> collection \<Rightarrow> jsval \<Rightarrow> (error + jsval) \<times> event list" where
  "batchCreateData prisma collection listData =
     finally_disconnect prisma
       (case createMany collection (JObj [(''data'', listData)]) of
          Inr u \<Rightarrow> (JObj [(''success'', JBool True)], [StoreCall])
        | Inl error \<Rightarrow>
            (JObj [(''success'', JBool False), (''error'', JStr ''Error creating data'')],
             [StoreCall, ConsoleError]))"

definition deleteData :: "prisma \<Rightarrow> collection \<Rightarrow> jsval \<Rightarrow> (error + jsval) \<times> event list" where
  "deleteData prisma collection id' =
     finally_disconnect prisma
       (case delete_where collection (JObj [(''where'', JObj [(''id'', id')])]) of
          Inr u \<Rightarrow> (JObj [(''success'', JBool True)], [StoreCall])
        | Inl error \<Rightarrow>
            (JObj [(''success'', JBool False), (''error'', JStr ''Error deleting data'')],
             [StoreCall, ConsoleError]))"

definition updateFields ::
  "prisma \<Rightarrow> collection \<Rightarrow> jsval \<Rightarrow> jsval \<Rightarrow> (error + jsval) \<times> event list" where
  "updateFields prisma collection dataToUpdate id' =
     finally_disconnect prisma
       (case updateMany collection
               (JObj [(''where'', JObj [(''id'', id')]), (''data'', dataToUpdate)]) of
          Inr u \<Rightarrow> (JObj [(''success'', JBool True)], [StoreCall])
        | Inl error \<Rightarrow> (JObj [(''success'', JBool False)], [StoreCall, ConsoleError]))"

section \<open>Properties of the condition translation\<close>

subsection \<open>Writes to the predicate\<close>

lemma map_of_set_prop: "map_of (set_prop ps k v) = (map_of ps)(k \<mapsto> v)"
  by (induction ps) (auto simp: fun_eq_iff)

lemma handleCondition_other:
  assumes "handleCondition rf lf af andf sf wh (k, v) = Inr wh'"
    and "key \<noteq> k" and "k \<in> set af \<longrightarrow> key \<noteq> ''OR''"
  shows "map_of wh' key = map_of wh key"
  using assms
  by (auto simp: handleCondition_def map_of_set_prop split: if_splits jsval.splits sum.splits)

lemma loop_other:
  assumes "handleConditions_loop rf lf af andf sf wh conds = Inr wh'"
    and "key \<notin> fst ` set conds"
    and "key = ''OR'' \<longrightarrow> (\<forall>k \<in> fst ` set conds. k \<notin> set af)"
  shows "map_of wh' key = map_of wh key"
  using assms
proof (induction conds arbitrary: wh)
  case Nil
  then show ?case by simp
next
  case (Cons kv rest)
  obtain k v where kv: "kv = (k, v)" by (cases kv)
  from Cons.prems(1) obtain w1 where
    s: "handleCondition rf lf af andf sf wh (k, v) = Inr w1" and
    r: "handleConditions_loop rf lf af andf sf w1 rest = Inr wh'"
    by (auto simp: kv split: sum.splits)
  have "map_of wh' key = map_of w1 key"
    using Cons.IH[OF r] Cons.prems(2,3) by auto
  moreover have "map_of w1 key = map_of wh key"
    using handleCondition_other[OF s] Cons.prems(2,3) by (auto simp: kv)
  ultimately show ?case by simp
qed

lemma handleCondition_plain:
  assumes "key \<notin> set af"
  shows "handleCondition rf lf af andf sf wh (key, value) =
     Inr (set_prop wh key (JObj
       (case value of
          JArr vs \<Rightarrow>
            if key \<in> set rf then [(''gte'', index vs 0), (''lte'', index vs 1)]
            else if key \<in> set andf then [(''hasEvery'', value)]
            else if key \<in> set lf then [(''hasSome'', value)]
            else [(''in'', value)]
        | _ \<Rightarrow> if key \<in> set sf then [(''contains'', value)] else [(''equals'', value)])))"
  using assms by (simp add: handleCondition_def split: jsval.splits)

lemma loop_split:
  "handleConditions_loop rf lf af andf sf wh (pre @ kv # post) = Inr wh' \<Longrightarrow>
   \<exists>w0 w1. handleConditions_loop rf lf af andf sf wh pre = Inr w0 \<and>
           handleCondition rf lf af andf sf w0 kv = Inr w1 \<and>
           handleConditions_loop rf lf af andf sf w1 post = Inr wh'"
  by (induction pre arbitrary: wh) (auto split: sum.splits)

lemma loop_total:
  "\<forall>k \<in> fst ` set conds. k \<notin> set af \<Longrightarrow>
   \<exists>wh'. handleConditions_loop rf lf af andf sf wh conds = Inr wh'"
proof (induction conds arbitrary: wh)
  case Nil
  then show ?case by simp
next
  case (Cons kv rest)
  obtain k v where kv: "kv = (k, v)" by (cases kv)
  with Cons.prems have "k \<notin> set af" by simp
  then show ?case using Cons.IH Cons.prems
    by (simp add: kv handleCondition_plain)
qed




lemma handleCondition_plain_lookup:
  assumes "key \<notin> set af" and "handleCondition rf lf af andf sf w0 (key, value) = Inr w1"
  shows "map_of w1 key = Some (JObj
       (case value of
          JArr vs \<Rightarrow>
            if key \<in> set rf then [(''gte'', index vs 0), (''lte'', index vs 1)]
            else if key \<in> set andf then [(''hasEvery'', value)]
            else if key \<in> set lf then [(''hasSome'', value)]
            else [(''in'', value)]
        | _ \<Rightarrow> if key \<in> set sf then [(''contains'', value)] else [(''equals'', value)]))"
proof -
  have "w1 = set_prop w0 key (JObj
       (case value of
          JArr vs \<Rightarrow>
            if key \<in> set rf then [(''gte'', index vs 0), (''lte'', index vs 1)]
            else if key \<in> set andf then [(''hasEvery'', value)]
            else if key \<in> set lf then [(''hasSome'', value)]
            else [(''in'', value)]
        | _ \<Rightarrow> if key \<in> set sf then [(''contains'', value)] else [(''equals'', value)]))"
    using assms(2) unfolding handleCondition_plain[OF assms(1)] by (rule sum.inject(2)[THEN iffD1, symmetric])
  then show ?thesis by (simp only: map_of_set_prop fun_upd_same)
qed

lemma loop_entry:
  assumes run: "handleConditions_loop rf lf af andf sf wh conds = Inr wh'"
    and dist: "distinct (map fst conds)"
    and mem: "(key, value) \<in> set conds"
    and plain: "key \<notin> set af"
    and orkey: "key = ''OR'' \<longrightarrow> (\<forall>k \<in> fst ` set conds. k \<notin> set af)"
  shows "map_of wh' key = Some (JObj
       (case value of
          JArr vs \<Rightarrow>
            if key \<in> set rf then [(''gte'', index vs 0), (''lte'', index vs 1)]
            else if key \<in> set andf then [(''hasEvery'', value)]
            else if key \<in> set lf then [(''hasSome'', value)]
            else [(''in'', value)]
        | _ \<Rightarrow> if key \<in> set sf then [(''contains'', value)] else [(''equals'', value)]))"
proof -
  from mem obtain pre post where sp: "conds = pre @ (key, value) # post"
    by (auto simp: in_set_conv_decomp)
  from run[unfolded sp] obtain w0 w1 where
    s: "handleCondition rf lf af andf sf w0 (key, value) = Inr w1" and
    r: "handleConditions_loop rf lf af andf sf w1 post = Inr wh'"
    using loop_split by blast
  have notin: "key \<notin> fst ` set post" using dist by (auto simp: sp)
  have "map_of wh' key = map_of w1 key"
    using loop_other[OF r notin] orkey by (auto simp: sp)
  then show ?thesis
    by (simp only: handleCondition_plain_lookup[OF plain s])
qed

subsection \<open>Classification priority\<close>

lemma loop_entry_split:
  assumes run: "handleConditions_loop rf lf af andf sf wh (pre @ (key, value) # post) = Inr wh'"
    and dist: "distinct (map fst (pre @ (key, value) # post))"
    and plain: "key \<notin> set af"
    and orkey: "key = ''OR'' \<longrightarrow> (\<forall>k \<in> fst ` set post. k \<notin> set af)"
  shows "map_of wh' key = Some (JObj
       (case value of
          JArr vs \<Rightarrow>
            if key \<in> set rf then [(''gte'', index vs 0), (''lte'', index vs 1)]
            else if key \<in> set andf then [(''hasEvery'', value)]
            else if key \<in> set lf then [(''hasSome'', value)]
            else [(''in'', value)]
        | _ \<Rightarrow> if key \<in> set sf then [(''contains'', value)] else [(''equals'', value)]))"
proof -
  from run obtain w0 w1 where
    s: "handleCondition rf lf af andf sf w0 (key, value) = Inr w1" and
    r: "handleConditions_loop rf lf af andf sf w1 post = Inr wh'"
    using loop_split by blast
  have notin: "key \<notin> fst ` set post" using dist by auto
  have "map_of wh' key = map_of w1 key"
    using r notin orkey by (rule loop_other)
  then show ?thesis
    by (simp only: handleCondition_plain_lookup[OF plain s])
qed

lemma loop_or_list:
  assumes "handleConditions_loop rf lf af andf sf wh post = Inr wh'"
    and "''OR'' \<notin> fst ` set post"
    and "(\<exists>k \<in> fst ` set post. k \<in> set af) \<or> (\<exists>cs. map_of wh ''OR'' = Some (JArr cs))"
  shows "\<exists>cs. map_of wh' ''OR'' = Some (JArr cs)"
  using assms
proof (induction post arbitrary: wh)
  case Nil
  then show ?case by simp
next
  case (Cons kv rest)
  obtain k v where kv: "kv = (k, v)" by (cases kv)
  from Cons.prems(1) obtain w1 where
    s: "handleCondition rf lf af andf sf wh (k, v) = Inr w1" and
    r: "handleConditions_loop rf lf af andf sf w1 rest = Inr wh'"
    by (auto simp: kv split: sum.splits)
  have notin: "''OR'' \<notin> fst ` set rest" using Cons.prems(2) by simp
  have "(\<exists>k \<in> fst ` set rest. k \<in> set af) \<or> (\<exists>cs. map_of w1 ''OR'' = Some (JArr cs))"
  proof (cases "k \<in> set af")
    case True
    then have "\<exists>cs. map_of w1 ''OR'' = Some (JArr cs)"
      using s by (auto simp: handleCondition_def map_of_set_prop split: jsval.splits sum.splits)
    then show ?thesis ..
  next
    case False
    have "k \<noteq> ''OR''" using Cons.prems(2) by (auto simp: kv)
    then have "map_of w1 ''OR'' = map_of wh ''OR''"
      using handleCondition_other[OF s, of "''OR''"] False by auto
    with Cons.prems(3) False show ?thesis by (auto simp: kv)
  qed
  with Cons.IH[OF r notin] show ?case .
qed

text \<open>
  Claim C1, as the code has it. Whenever the translation succeeds, every key that is no
  address field ends with the clause of the first matching rule: for a list value the
  range rule \<^verbatim>\<open>{gte: value[0], lte: value[1]}\<close> if the key is a range field (for a
  list of any length, not only a pair), else \<^verbatim>\<open>{hasEvery: value}\<close> if it is a
  logic-AND list field, else \<^verbatim>\<open>{hasSome: value}\<close> if it is a logic-OR list field,
  else \<^verbatim>\<open>{in: value}\<close>; for any other value \<^verbatim>\<open>{contains: value}\<close> if the key
  is a search field, else \<^verbatim>\<open>{equals: value}\<close>. So a key in both the range fields and
  the logic-AND list fields gets the range rule. The one exception is a key named
  \<^verbatim>\<open>OR\<close> that an address field follows in the map: the address field overwrites it,
  and \<^verbatim>\<open>OR\<close> ends with a list. An address field before it does no harm.
\<close>

theorem handleConditions_priority:
  assumes "handleConditions conds rf lf af andf sf = Inr wh"
    and "distinct (map fst conds)"
    and "conds = pre @ (key, value) # post"
    and "key \<notin> set af"
  shows "(key = ''OR'' \<and> (\<exists>k \<in> fst ` set post. k \<in> set af) \<longrightarrow>
            (\<exists>cs. map_of wh key = Some (JArr cs))) \<and>
         (\<not> (key = ''OR'' \<and> (\<exists>k \<in> fst ` set post. k \<in> set af)) \<longrightarrow>
            map_of wh key = Some (JObj
       (case value of
          JArr vs \<Rightarrow>
            if key \<in> set rf then [(''gte'', index vs 0), (''lte'', index vs 1)]
            else if key \<in> set andf then [(''hasEvery'', value)]
            else if key \<in> set lf then [(''hasSome'', value)]
            else [(''in'', value)]
        | _ \<Rightarrow> if key \<in> set sf then [(''contains'', value)] else [(''equals'', value)])))"
proof (intro conjI impI)
  assume a: "key = ''OR'' \<and> (\<exists>k \<in> fst ` set post. k \<in> set af)"
  from assms(1) obtain w0 w1 where
    r: "handleConditions_loop rf lf af andf sf w1 post = Inr wh"
    unfolding handleConditions_def assms(3) using loop_split by blast
  have notin: "''OR'' \<notin> fst ` set post" using assms(2) a by (auto simp: assms(3))
  from a have "(\<exists>k \<in> fst ` set post. k \<in> set af) \<or> (\<exists>cs. map_of w1 ''OR'' = Some (JArr cs))"
    by simp
  with r notin have "\<exists>cs. map_of wh ''OR'' = Some (JArr cs)" by (rule loop_or_list)
  with a show "\<exists>cs. map_of wh key = Some (JArr cs)" by simp
next
  assume "\<not> (key = ''OR'' \<and> (\<exists>k \<in> fst ` set post. k \<in> set af))"
  then have orkey: "key = ''OR'' \<longrightarrow> (\<forall>k \<in> fst ` set post. k \<notin> set af)" by blast
  have run: "handleConditions_loop rf lf af andf sf [] (pre @ (key, value) # post) = Inr wh"
    using assms(1) unfolding handleConditions_def assms(3) .
  have dist: "distinct (map fst (pre @ (key, value) # post))"
    using assms(2) unfolding assms(3) .
  from run dist assms(4) orkey show "map_of wh key = Some (JObj
       (case value of
          JArr vs \<Rightarrow>
            if key \<in> set rf then [(''gte'', index vs 0), (''lte'', index vs 1)]
            else if key \<in> set andf then [(''hasEvery'', value)]
            else if key \<in> set lf then [(''hasSome'', value)]
            else [(''in'', value)]
        | _ \<Rightarrow> if key \<in> set sf then [(''contains'', value)] else [(''equals'', value)]))"
    by (rule loop_entry_split)
qed

theorem handleConditions_priority_witness:
  "handleConditions
      [(''location'', JArr [JObj [(''country'', JStr ''US'')]]),
       (''createdAt'', JArr [JStr ''d1'', JStr ''d2'']), (''OR'', JStr ''x'')]
      [''createdAt''] [] [''location''] [''createdAt''] [] =
     Inr [(''OR'', JObj [(''equals'', JStr ''x'')]),
          (''createdAt'', JObj [(''gte'', JStr ''d1''), (''lte'', JStr ''d2'')])] \<and>
   map_of [(''OR'', JObj [(''equals'', JStr ''x'')]),
           (''createdAt'', JObj [(''gte'', JStr ''d1''), (''lte'', JStr ''d2'')])] ''OR'' =
     Some (JObj [(''equals'', JStr ''x'')]) \<and>
   map_of [(''OR'', JObj [(''equals'', JStr ''x'')]),
           (''createdAt'', JObj [(''gte'', JStr ''d1''), (''lte'', JStr ''d2'')])] ''createdAt'' =
     Some (JObj [(''gte'', JStr ''d1''), (''lte'', JStr ''d2'')]) \<and>
   handleConditions
      [(''OR'', JStr ''x''), (''location'', JArr [JObj [(''country'', JStr ''US'')]])]
      [] [] [''location''] [] [] =
     Inr [(''OR'', JArr [JObj [(''location'',
            JObj [(''path'', JArr [JStr ''country'']), (''equals'', JStr ''US'')])]])] \<and>
   (\<exists>cs. map_of [(''OR'', JArr [JObj [(''location'',
            JObj [(''path'', JArr [JStr ''country'']), (''equals'', JStr ''US'')])]])] ''OR'' =
     Some (JArr cs))"
proof -
  let ?c1 = "[(''location'', JArr [JObj [(''country'', JStr ''US'')]]),
       (''createdAt'', JArr [JStr ''d1'', JStr ''d2'']), (''OR'', JStr ''x'')]"
  let ?w1 = "[(''OR'', JObj [(''equals'', JStr ''x'')]),
          (''createdAt'', JObj [(''gte'', JStr ''d1''), (''lte'', JStr ''d2'')])]"
  let ?c2 = "[(''OR'', JStr ''x''), (''location'', JArr [JObj [(''country'', JStr ''US'')]])]"
  let ?w2 = "[(''OR'', JArr [JObj [(''location'',
            JObj [(''path'', JArr [JStr ''country'']), (''equals'', JStr ''US'')])]])]"
  have run1: "handleConditions ?c1 [''createdAt''] [] [''location''] [''createdAt''] [] = Inr ?w1"
    by (simp add: handleConditions_def handleCondition_def addressClause_def
        removeNullValues_def get_prop_def index_def)
  have run2: "handleConditions ?c2 [] [] [''location''] [] [] = Inr ?w2"
    by (simp add: handleConditions_def handleCondition_def addressClause_def
        removeNullValues_def get_prop_def)
  have d1: "distinct (map fst ?c1)" by simp
  have d2: "distinct (map fst ?c2)" by simp
  have s1: "?c1 = [(''location'', JArr [JObj [(''country'', JStr ''US'')]]),
       (''createdAt'', JArr [JStr ''d1'', JStr ''d2''])] @ (''OR'', JStr ''x'') # []" by simp
  have s1': "?c1 = [(''location'', JArr [JObj [(''country'', JStr ''US'')]])] @
       (''createdAt'', JArr [JStr ''d1'', JStr ''d2'']) # [(''OR'', JStr ''x'')]" by simp
  have s2: "?c2 = [] @ (''OR'', JStr ''x'') #
       [(''location'', JArr [JObj [(''country'', JStr ''US'')]])]" by simp
  have p: "''OR'' \<notin> set [''location'']" "''createdAt'' \<notin> set [''location'']" by simp_all
  have a: "map_of ?w1 ''OR'' = Some (JObj [(''equals'', JStr ''x'')])"
    using handleConditions_priority[OF run1 d1 s1 p(1)] by simp
  have b: "map_of ?w1 ''createdAt'' = Some (JObj [(''gte'', JStr ''d1''), (''lte'', JStr ''d2'')])"
    using handleConditions_priority[OF run1 d1 s1' p(2)] by (simp add: index_def)
  have c: "\<exists>cs. map_of ?w2 ''OR'' = Some (JArr cs)"
    using handleConditions_priority[OF run2 d2 s2 p(1)] by simp
  from run1 a b run2 c show ?thesis by (intro conjI)
qed

text \<open>
  Claim C1 as stated gives the range rule to ordered pairs only. A range field with a
  three-element list is no pair, yet it gets the range rule and not \<^verbatim>\<open>{in: value}\<close>.
\<close>

theorem handleConditions_priority_counterexample:
  "length [JStr ''a'', JStr ''b'', JStr ''c''] \<noteq> 2 \<and>
   handleConditions [(''createdAt'', JArr [JStr ''a'', JStr ''b'', JStr ''c''])]
      [''createdAt''] [] [] [] [] =
     Inr [(''createdAt'', JObj [(''gte'', JStr ''a''), (''lte'', JStr ''b'')])] \<and>
   handleConditions [(''createdAt'', JArr [JStr ''a'', JStr ''b'', JStr ''c''])]
      [''createdAt''] [] [] [] [] \<noteq>
     Inr [(''createdAt'', JObj [(''in'', JArr [JStr ''a'', JStr ''b'', JStr ''c''])])]"
  by (simp add: handleConditions_def handleCondition_def index_def)

subsection \<open>Range fields with a malformed value\<close>

text \<open>
  Claim C5, as the code has it. A range field never makes the translation fail: with no
  address field among the keys the translation succeeds, and a range key ends with
  \<^verbatim>\<open>{gte: value[0], lte: value[1]}\<close> for a list of any length (\<^verbatim>\<open>undefined\<close> where
  the list is too short, further elements ignored) and with the scalar rule
  (\<^verbatim>\<open>contains\<close> for a search field, else \<^verbatim>\<open>equals\<close>) for a value that is no list.
\<close>

theorem handleConditions_range_any_value:
  assumes "\<forall>k \<in> fst ` set conds. k \<notin> set af"
    and "distinct (map fst conds)"
    and "(key, value) \<in> set conds"
    and "key \<in> set rf"
  shows "\<exists>wh. handleConditions conds rf lf af andf sf = Inr wh \<and>
     map_of wh key = Some (JObj
       (case value of
          JArr vs \<Rightarrow> [(''gte'', index vs 0), (''lte'', index vs 1)]
        | _ \<Rightarrow> if key \<in> set sf then [(''contains'', value)] else [(''equals'', value)]))"
proof -
  have "\<exists>wh. handleConditions_loop rf lf af andf sf [] conds = Inr wh"
    using assms(1) by (rule loop_total)
  then obtain wh where run: "handleConditions_loop rf lf af andf sf [] conds = Inr wh" ..
  have "key \<in> fst ` set conds" using assms(3) by (rule image_eqI[rotated]) simp
  with assms(1) have plain: "key \<notin> set af" by blast
  have ork: "key = ''OR'' \<longrightarrow> (\<forall>k \<in> fst ` set conds. k \<notin> set af)"
    by (rule impI) (rule assms(1))
  have "map_of wh key = Some (JObj
       (case value of
          JArr vs \<Rightarrow> [(''gte'', index vs 0), (''lte'', index vs 1)]
        | _ \<Rightarrow> if key \<in> set sf then [(''contains'', value)] else [(''equals'', value)]))"
    using loop_entry[OF run assms(2,3) plain ork] assms(4) by (cases "value") simp_all
  with run show ?thesis unfolding handleConditions_def by blast
qed

theorem handleConditions_range_any_value_witness:
  "\<exists>wh. handleConditions [(''price'', JArr [])] [''price''] [] [] [] [] = Inr wh \<and>
     map_of wh ''price'' = Some (JObj [(''gte'', JUndefined), (''lte'', JUndefined)])"
proof -
  have a: "\<forall>k \<in> fst ` set [(''price'', JArr [])]. k \<notin> set []" by simp
  have d: "distinct (map fst [(''price'', JArr [])])" by simp
  have m: "(''price'', JArr []) \<in> set [(''price'', JArr [])]" by simp
  have r: "''price'' \<in> set [''price'']" by simp
  from handleConditions_range_any_value[OF a d m r, of "[]" "[]" "[]"]
  show ?thesis by (simp add: index_def)
qed

text \<open>
  Claim C5 as stated asks for an error. A one-element list under a range key is
  translated without one, and its missing upper bound is \<^verbatim>\<open>undefined\<close>.
\<close>

theorem handleConditions_malformed_range_counterexample:
  "length [JStr ''d1''] \<noteq> 2 \<and>
   handleConditions [(''createdAt'', JArr [JStr ''d1''])] [''createdAt''] [] [] [] [] =
     Inr [(''createdAt'', JObj [(''gte'', JStr ''d1''), (''lte'', JUndefined)])]"
  by (simp add: handleConditions_def handleCondition_def index_def)

subsection \<open>Address fields\<close>

lemma set_prop_fresh: "k \<notin> fst ` set ps \<Longrightarrow> set_prop ps k v = ps @ [(k, v)]"
  by (induction ps) auto

lemma copy_not_null:
  "distinct (map fst ps) \<Longrightarrow> fst ` set acc \<inter> fst ` set ps = {} \<Longrightarrow>
   foldl (\<lambda>newObj (key, v). if v \<noteq> JNull then set_prop newObj key v else newObj) acc ps =
     acc @ filter (\<lambda>p. snd p \<noteq> JNull) ps"
proof (induction ps arbitrary: acc)
  case Nil
  then show ?case by simp
next
  case (Cons p ps)
  obtain k v where p: "p = (k, v)" by (cases p)
  show ?case
  proof (cases "v = JNull")
    case True
    then show ?thesis using Cons.IH[of acc] Cons.prems by (auto simp: p)
  next
    case False
    have fresh: "k \<notin> fst ` set acc" using Cons.prems(2) by (auto simp: p)
    have "fst ` set (acc @ [(k, v)]) \<inter> fst ` set ps = {}"
      using Cons.prems by (auto simp: p)
    then show ?thesis
      using Cons.IH[of "acc @ [(k, v)]"] Cons.prems(1) False
      by (simp add: p set_prop_fresh[OF fresh])
  qed
qed

lemma removeNullValues_object:
  "distinct (map fst ps) \<Longrightarrow>
   removeNullValues (JObj ps) = Inr (filter (\<lambda>p. snd p \<noteq> JNull) ps)"
  using copy_not_null[of ps "[]"] by (simp add: removeNullValues_def)

lemma addressClause_object:
  assumes "distinct (map fst ps)"
  shows "addressClause key (JObj ps) =
     Inr (if truthy (get_prop ps ''country'') \<and> \<not> truthy (get_prop ps ''province'') \<and>
             \<not> truthy (get_prop ps ''city'')
          then JObj [(key, JObj [(''path'', JArr [JStr ''country'']),
                                 (''equals'', get_prop ps ''country'')])]
          else JObj [(key, JObj [(''equals'', JObj (filter (\<lambda>p. snd p \<noteq> JNull) ps))])])"
  by (simp add: addressClause_def removeNullValues_object[OF assms])

lemma map_throw_total:
  "\<forall>x \<in> set xs. f x = Inr (g x) \<Longrightarrow> map_throw f xs = Inr (map g xs)"
  by (induction xs) auto

text \<open>
  Claim C2, as the code has it. For an address key whose value is a list of objects, the
  predicate's \<^verbatim>\<open>OR\<close> list holds one clause per object, in order: a clause on path
  \<^verbatim>\<open>['country']\<close> when the object's \<^verbatim>\<open>country\<close> is truthy and its \<^verbatim>\<open>province\<close>
  and \<^verbatim>\<open>city\<close> are falsy (absent, null or empty), whatever other keys it has, and
  otherwise an \<^verbatim>\<open>equals\<close> clause on the object without its null-valued keys. This is
  the final \<^verbatim>\<open>OR\<close> list when no later key is an address field or is named \<^verbatim>\<open>OR\<close>.
\<close>

theorem handleConditions_address_or_list:
  assumes run: "handleConditions conds rf lf af andf sf = Inr wh"
    and sp: "conds = pre @ (key, JArr (map JObj pss)) # post"
    and addr: "key \<in> set af"
    and objs: "\<forall>ps \<in> set pss. distinct (map fst ps)"
    and last: "\<forall>k \<in> fst ` set post. k \<notin> set af \<and> k \<noteq> ''OR''"
  shows "map_of wh ''OR'' = Some (JArr (map
     (\<lambda>ps. if truthy (get_prop ps ''country'') \<and> \<not> truthy (get_prop ps ''province'') \<and>
                \<not> truthy (get_prop ps ''city'')
           then JObj [(key, JObj [(''path'', JArr [JStr ''country'']),
                                  (''equals'', get_prop ps ''country'')])]
           else JObj [(key, JObj [(''equals'', JObj (filter (\<lambda>p. snd p \<noteq> JNull) ps))])])
     pss))"
proof -
  let ?g = "\<lambda>ps. if truthy (get_prop ps ''country'') \<and> \<not> truthy (get_prop ps ''province'') \<and>
                \<not> truthy (get_prop ps ''city'')
           then JObj [(key, JObj [(''path'', JArr [JStr ''country'']),
                                  (''equals'', get_prop ps ''country'')])]
           else JObj [(key, JObj [(''equals'', JObj (filter (\<lambda>p. snd p \<noteq> JNull) ps))])]"
  from run[unfolded handleConditions_def sp] obtain w0 w1 where
    s: "handleCondition rf lf af andf sf w0 (key, JArr (map JObj pss)) = Inr w1" and
    r: "handleConditions_loop rf lf af andf sf w1 post = Inr wh"
    using loop_split by blast
  have "\<forall>p \<in> set (map JObj pss). addressClause key p = Inr ((?g \<circ> (\<lambda>p. case p of JObj ps \<Rightarrow> ps)) p)"
    using objs by (auto simp: addressClause_object)
  then have "map_throw (addressClause key) (map JObj pss) =
      Inr (map (?g \<circ> (\<lambda>p. case p of JObj ps \<Rightarrow> ps)) (map JObj pss))"
    by (rule map_throw_total)
  also have "map (?g \<circ> (\<lambda>p. case p of JObj ps \<Rightarrow> ps)) (map JObj pss) = map ?g pss"
    by simp
  finally have m: "map_throw (addressClause key) (map JObj pss) = Inr (map ?g pss)" .
  have "w1 = set_prop w0 ''OR'' (JArr (map ?g pss))"
    using s addr by (simp add: handleCondition_def m)
  then have w1: "map_of w1 ''OR'' = Some (JArr (map ?g pss))"
    by (simp only: map_of_set_prop fun_upd_same)
  have notin: "''OR'' \<notin> fst ` set post" using last by blast
  have noaddr: "''OR'' = ''OR'' \<longrightarrow> (\<forall>k \<in> fst ` set post. k \<notin> set af)" using last by blast
  have "map_of wh ''OR'' = map_of w1 ''OR''"
    using r notin noaddr by (rule loop_other)
  with w1 show ?thesis by (simp only:)
qed

theorem handleConditions_address_or_list_witness:
  "handleConditions [(''location'', JArr (map JObj [[(''country'', JStr ''US'')]]))]
      [] [] [''location''] [] [] =
     Inr [(''OR'', JArr [JObj [(''location'',
            JObj [(''path'', JArr [JStr ''country'']), (''equals'', JStr ''US'')])]])] \<and>
   map_of [(''OR'', JArr [JObj [(''location'',
            JObj [(''path'', JArr [JStr ''country'']), (''equals'', JStr ''US'')])]])] ''OR'' =
     Some (JArr [JObj [(''location'',
            JObj [(''path'', JArr [JStr ''country'']), (''equals'', JStr ''US'')])]])"
proof -
  have run: "handleConditions [(''location'', JArr (map JObj [[(''country'', JStr ''US'')]]))]
      [] [] [''location''] [] [] =
     Inr [(''OR'', JArr [JObj [(''location'',
            JObj [(''path'', JArr [JStr ''country'']), (''equals'', JStr ''US'')])]])]"
    by (simp add: handleConditions_def handleCondition_def addressClause_def
        removeNullValues_def get_prop_def)
  have sp: "[(''location'', JArr (map JObj [[(''country'', JStr ''US'')]]))] =
      [] @ (''location'', JArr (map JObj [[(''country'', JStr ''US'')]])) # []" by simp
  have addr: "''location'' \<in> set [''location'']" by simp
  have objs: "\<forall>ps \<in> set [[(''country'', JStr ''US'')]]. distinct (map fst ps)" by simp
  have last: "\<forall>k \<in> fst ` set ([] :: props). k \<notin> set [''location''] \<and> k \<noteq> ''OR''" by simp
  from handleConditions_address_or_list[OF run sp addr objs last]
  have "map_of [(''OR'', JArr [JObj [(''location'',
            JObj [(''path'', JArr [JStr ''country'']), (''equals'', JStr ''US'')])]])] ''OR'' =
     Some (JArr [JObj [(''location'',
            JObj [(''path'', JArr [JStr ''country'']), (''equals'', JStr ''US'')])]])"
    by (simp add: get_prop_def)
  with run show ?thesis by (rule conjI)
qed

text \<open>
  Claim C2 as stated gives the country path clause only to an object in which nothing but
  \<^verbatim>\<open>country\<close> is present. An object with a country and a postal code gets the path
  clause as well, not the \<^verbatim>\<open>equals\<close> clause on the whole object.
\<close>

theorem handleConditions_address_counterexample:
  "handleConditions
      [(''location'', JArr [JObj [(''country'', JStr ''US''), (''zip'', JStr ''94000'')]])]
      [] [] [''location''] [] [] =
     Inr [(''OR'', JArr [JObj [(''location'',
            JObj [(''path'', JArr [JStr ''country'']), (''equals'', JStr ''US'')])]])] \<and>
   handleConditions
      [(''location'', JArr [JObj [(''country'', JStr ''US''), (''zip'', JStr ''94000'')]])]
      [] [] [''location''] [] [] \<noteq>
     Inr [(''OR'', JArr [JObj [(''location'',
            JObj [(''equals'', JObj [(''country'', JStr ''US''), (''zip'', JStr ''94000'')])])]])]"
  by (simp add: handleConditions_def handleCondition_def addressClause_def
      removeNullValues_def get_prop_def)

subsection \<open>The simpler version against the extended one\<close>

lemma addressPaths_country_only:
  "country_only p \<Longrightarrow>
   addressPaths key p = Inr [JObj [(key, JObj [(''path'', JArr [JStr ''country'']),
                                               (''equals'', case p of JObj ps \<Rightarrow> get_prop ps ''country'')])]]"
  by (cases p) (simp_all add: addressPaths_def)

lemma addressClause_country_only:
  "country_only p \<Longrightarrow>
   addressClause key p = Inr (JObj [(key, JObj [(''path'', JArr [JStr ''country'']),
                                               (''equals'', case p of JObj ps \<Rightarrow> get_prop ps ''country'')])])"
  by (cases p) (simp_all add: addressClause_def removeNullValues_def)

lemma addressFilter_loop_country_only:
  "list_all country_only params \<Longrightarrow>
   addressFilter_loop key acc params =
     (case map_throw (addressClause key) params of Inl e \<Rightarrow> Inl e | Inr cs \<Rightarrow> Inr (acc @ cs))"
  by (induction params arbitrary: acc)
     (auto simp: addressPaths_country_only addressClause_country_only split: sum.splits)

lemma handleCondition_simple_eq:
  assumes "k \<in> set af \<longrightarrow> country_only_list v"
  shows "handleCondition_simple rf lf af wh (k, v) = handleCondition rf lf af [] [] wh (k, v)"
proof (cases "k \<in> set af")
  case True
  with assms obtain params where v: "v = JArr params" and all: "list_all country_only params"
    by (cases v) auto
  show ?thesis
    using True by (simp add: handleCondition_simple_def handleCondition_def v
        addressFilter_loop_country_only[OF all] split: sum.splits)
next
  case False
  then show ?thesis
    by (cases v) (simp_all add: handleCondition_simple_def handleCondition_def)
qed

lemma simple_loop_eq:
  "\<forall>kv \<in> set conds. fst kv \<in> set af \<longrightarrow> country_only_list (snd kv) \<Longrightarrow>
   handleConditions_simple_loop rf lf af wh conds = handleConditions_loop rf lf af [] [] wh conds"
proof (induction conds arbitrary: wh)
  case Nil
  then show ?case by simp
next
  case (Cons kv rest)
  obtain k v where kv: "kv = (k, v)" by (cases kv)
  have step: "handleCondition_simple rf lf af wh (k, v) = handleCondition rf lf af [] [] wh (k, v)"
    using Cons.prems by (intro handleCondition_simple_eq) (simp add: kv)
  show ?case using Cons.IH Cons.prems by (simp add: kv step split: sum.splits)
qed

text \<open>
  Claim C9, as the code has it. The simpler version's \<^verbatim>\<open>handleConditions\<close> returns what
  the extended one returns with empty logic-AND list and search field sets whenever the
  value of every address key is a list of objects that each name a country and neither a
  province nor a city; in particular whenever the condition map has no address key.
\<close>

theorem handleConditions_simple_refines:
  assumes "\<forall>kv \<in> set conds. fst kv \<in> set af \<longrightarrow> country_only_list (snd kv)"
  shows "handleConditions_simple conds rf lf af = handleConditions conds rf lf af [] []"
  unfolding handleConditions_simple_def handleConditions_def using assms by (rule simple_loop_eq)

theorem handleConditions_simple_refines_witness:
  "handleConditions_simple
      [(''location'', JArr [JObj [(''country'', JStr ''US'')]]), (''tags'', JArr [JStr ''a''])]
      [] [''tags''] [''location''] =
   handleConditions
      [(''location'', JArr [JObj [(''country'', JStr ''US'')]]), (''tags'', JArr [JStr ''a''])]
      [] [''tags''] [''location''] [] []"
proof -
  have "\<forall>kv \<in> set [(''location'', JArr [JObj [(''country'', JStr ''US'')]]),
                       (''tags'', JArr [JStr ''a''])].
          fst kv \<in> set [''location''] \<longrightarrow> country_only_list (snd kv)"
    by (simp add: get_prop_def)
  then show ?thesis by (rule handleConditions_simple_refines)
qed

text \<open>
  Claim C9 as stated covers every condition map. For an address object that names a
  city, the simpler version emits a path clause on \<^verbatim>\<open>['city']\<close> and the extended one
  an \<^verbatim>\<open>equals\<close> clause on the whole object.
\<close>

theorem handleConditions_simple_counterexample:
  "handleConditions_simple [(''location'', JArr [JObj [(''city'', JStr ''SJ'')]])]
      [] [] [''location''] =
     Inr [(''OR'', JArr [JObj [(''location'',
            JObj [(''path'', JArr [JStr ''city'']), (''equals'', JStr ''SJ'')])]])] \<and>
   handleConditions [(''location'', JArr [JObj [(''city'', JStr ''SJ'')]])]
      [] [] [''location''] [] [] =
     Inr [(''OR'', JArr [JObj [(''location'',
            JObj [(''equals'', JObj [(''city'', JStr ''SJ'')])])]])] \<and>
   handleConditions_simple [(''location'', JArr [JObj [(''city'', JStr ''SJ'')]])]
      [] [] [''location''] \<noteq>
   handleConditions [(''location'', JArr [JObj [(''city'', JStr ''SJ'')]])]
      [] [] [''location''] [] []"
  by (simp add: handleConditions_simple_def handleCondition_simple_def addressPaths_def
      handleConditions_def handleCondition_def addressClause_def removeNullValues_def
      get_prop_def)

section \<open>Properties of double-precision arithmetic\<close>

text \<open>Rounding leaves every integer below \<open>2^53\<close> in magnitude as it is.\<close>

lemma round_double_zero: "round_double 0 = Fin 0"
  by (simp add: round_double_def)

lemma bit_length_bounds:
  "0 < n \<Longrightarrow> 2 ^ (bit_length n - 1) \<le> n \<and> n < 2 ^ bit_length n"
proof (induction n rule: bit_length.induct)
  case (1 n)
  show ?case
  proof (cases "n div 2 \<le> 0")
    case True
    with "1.prems" have "n = 1" by linarith
    then show ?thesis by (simp add: bit_length.simps[of 1] bit_length.simps[of 0])
  next
    case False
    then have pos: "0 < n div 2" by simp
    from "1.prems" have nz: "\<not> n \<le> 0" by simp
    from "1.IH"[OF nz pos] have lo: "2 ^ (bit_length (n div 2) - 1) \<le> n div 2"
      and hi: "n div 2 < 2 ^ bit_length (n div 2)" by simp_all
    have bl: "bit_length n = Suc (bit_length (n div 2))"
      using nz by (simp add: bit_length.simps[of n])
    have "0 < bit_length (n div 2)"
      using pos by (simp add: bit_length.simps[of "n div 2"])
    then have s: "Suc (bit_length (n div 2) - 1) = bit_length (n div 2)" by simp
    have "2 ^ bit_length (n div 2) = (2::int) * 2 ^ (bit_length (n div 2) - 1)"
      using s by (metis power_Suc)
    with lo have "2 ^ bit_length (n div 2) \<le> n" by linarith
    moreover from hi have "n < 2 * 2 ^ bit_length (n div 2)" by linarith
    ultimately show ?thesis by (simp add: bl)
  qed
qed

lemma bit_length_safe:
  assumes "0 < n" and "n < 9007199254740992"
  shows "0 < bit_length n \<and> bit_length n \<le> 53"
proof -
  have pos: "0 < bit_length n" using assms(1) by (simp add: bit_length.simps[of n])
  have "(2::int) ^ (bit_length n - 1) < 9007199254740992"
    using bit_length_bounds[OF assms(1)] assms(2) by simp
  also have "(9007199254740992::int) = 2 ^ 53" by simp
  finally have "bit_length n - 1 < 53"
    by (simp only: power_strict_increasing_iff[of "2::int"] one_less_numeral_iff semiring_norm)
  with pos show ?thesis by simp
qed

lemma round_half_even_int: "round_half_even (of_int j) = j"
  by (simp add: round_half_even_def)

lemma round_double_pos_int:
  assumes "0 < a" and "a < 9007199254740992"
  shows "round_double (of_int a) = Fin (of_int a)" and "round_double (- of_int a) = Fin (- of_int a)"
proof -
  let ?b = "bit_length a"
  from bit_length_safe[OF assms] have b: "0 < ?b" "?b \<le> 53" by simp_all
  define E where "E = int ?b - 1"
  define k where "k = 53 - ?b"
  have one: "(1::rat) \<le> of_int a" using assms(1) by simp
  have ex: "exponent (of_int a) = E" using one by (simp add: exponent_def E_def)
  have e: "max E (- 1022) = E" using b by (simp add: E_def)
  have ulp: "pow2 (E - 52) = 1 / 2 ^ k"
  proof (cases "?b = 53")
    case True
    then show ?thesis by (simp add: pow2_def k_def E_def)
  next
    case False
    with b have lt: "?b < 53" by simp
    then have "nat (53 - int ?b) = k" by (simp add: k_def)
    moreover have "\<not> 0 \<le> int ?b - 1 - 52" using lt by simp
    moreover have "- (int ?b - 1 - 52) = 53 - int ?b" by simp
    ultimately show ?thesis by (simp add: pow2_def E_def)
  qed
  have q: "(of_int a :: rat) / (1 / 2 ^ k) = of_int (a * 2 ^ k)" by simp
  have m: "round_half_even ((of_int a :: rat) / (1 / 2 ^ k)) = a * 2 ^ k"
    unfolding q by (rule round_half_even_int)
  have restore: "(of_int (a * 2 ^ k) :: rat) * (1 / 2 ^ k) = of_int a" by simp
  have nov: "\<not> (1024 \<le> E \<or> (E = 1023 \<and> a * 2 ^ k = 9007199254740992))"
    using b by (simp add: E_def)
  have nz: "(of_int a :: rat) \<noteq> 0" using assms(1) by simp
  have absa: "\<bar>of_int a :: rat\<bar> = of_int a" using assms(1) by simp
  have posa: "(0::rat) < of_int a" using assms(1) by simp
  show "round_double (of_int a) = Fin (of_int a)"
    unfolding round_double_def Let_def absa ex e ulp m restore
    using nz posa nov by (simp only: if_False if_True)
  have absn: "\<bar>- of_int a :: rat\<bar> = of_int a" using assms(1) by simp
  have nzn: "(- of_int a :: rat) \<noteq> 0" using assms(1) by simp
  have neg: "\<not> (0::rat) < - of_int a" using assms(1) by simp
  show "round_double (- of_int a) = Fin (- of_int a)"
    unfolding round_double_def Let_def absn ex e ulp m restore
    using nzn neg nov by (simp only: if_False if_True)
qed

lemma round_double_int:
  assumes "\<bar>m\<bar> < 9007199254740992"
  shows "round_double (of_int m) = Fin (of_int m)"
proof -
  consider "m = 0" | "0 < m" | "m < 0" by linarith
  then show ?thesis
  proof cases
    case 1
    then show ?thesis by (simp add: round_double_def)
  next
    case 2
    then show ?thesis using assms round_double_pos_int(1)[of m] by simp
  next
    case 3
    then have "0 < - m" "- m < 9007199254740992" using assms by simp_all
    from round_double_pos_int(2)[OF this] show ?thesis by simp
  qed
qed

section \<open>Properties of pagination and of the paginated fetch\<close>

lemma getPagination_first_page: "p_skip (getPagination (PNumber 1) ps) = Fin 0"
  by (simp add: getPagination_def round_double_zero)

text \<open>
  Claim C3, as the code has it. A falsy page number (\<^verbatim>\<open>undefined\<close>, \<^verbatim>\<open>null\<close>, 0) is
  resolved to 1 and a falsy page size to 20; the limit is the resolved page size; and for
  a page number \<open>n\<close> and page size \<open>s\<close> the offset is \<open>(n - 1) * s\<close> whenever
  \<open>n - 1\<close> and that product are below \<open>2^53\<close> in magnitude, the integers on which
  the arithmetic of the number type is exact.
\<close>

theorem getPagination_offset_limit:
  "(pageNumber \<in> {PUndefined, PNull, PNumber 0} \<longrightarrow>
      getPagination pageNumber pageSize = getPagination (PNumber 1) pageSize) \<and>
   (pageSize \<in> {PUndefined, PNull, PNumber 0} \<longrightarrow>
      getPagination pageNumber pageSize = getPagination pageNumber (PNumber 20)) \<and>
   p_take (getPagination pageNumber (PNumber s)) = (if s = 0 then 20 else s) \<and>
   (n \<noteq> 0 \<and> s \<noteq> 0 \<and> \<bar>n - 1\<bar> < 9007199254740992 \<and> \<bar>(n - 1) * s\<bar> < 9007199254740992 \<longrightarrow>
      getPagination (PNumber n) (PNumber s) = \<lparr>p_take = s, p_skip = Fin (of_int ((n - 1) * s))\<rparr>)"
proof (intro conjI impI)
  assume "pageNumber \<in> {PUndefined, PNull, PNumber 0}"
  then show "getPagination pageNumber pageSize = getPagination (PNumber 1) pageSize"
    by (auto simp: getPagination_def)
next
  assume "pageSize \<in> {PUndefined, PNull, PNumber 0}"
  then show "getPagination pageNumber pageSize = getPagination pageNumber (PNumber 20)"
    by (auto simp: getPagination_def)
next
  show "p_take (getPagination pageNumber (PNumber s)) = (if s = 0 then 20 else s)"
    by (simp add: getPagination_def Let_def)
next
  assume a: "n \<noteq> 0 \<and> s \<noteq> 0 \<and> \<bar>n - 1\<bar> < 9007199254740992 \<and>
    \<bar>(n - 1) * s\<bar> < 9007199254740992"
  have sub: "js_sub (Fin (of_int n)) (Fin 1) = Fin (of_int (n - 1))"
    using a round_double_int[of "n - 1"] by simp
  have mul: "js_mul (Fin (of_int (n - 1))) (Fin (of_int s)) = Fin (of_int ((n - 1) * s))"
    using a round_double_int[of "(n - 1) * s"] by simp
  have page: "or_default (PNumber n) 1 = n" and limit: "or_default (PNumber s) 20 = s"
    using a by simp_all
  show "getPagination (PNumber n) (PNumber s) =
      \<lparr>p_take = s, p_skip = Fin (of_int ((n - 1) * s))\<rparr>"
    unfolding getPagination_def Let_def page limit sub mul ..
qed

theorem getPagination_offset_limit_example:
  "getPagination (PNumber 2) (PNumber 10) = \<lparr>p_take = 10, p_skip = Fin 10\<rparr> \<and>
   getPagination PNull (PNumber 10) = getPagination (PNumber 1) (PNumber 10) \<and>
   getPagination (PNumber 2) PUndefined = getPagination (PNumber 2) (PNumber 20)"
proof -
  have a: "getPagination (PNumber 2) (PNumber 10) = \<lparr>p_take = 10, p_skip = Fin 10\<rparr>"
    using getPagination_offset_limit[of PNull "PNumber 10" 10 2] by simp
  have b: "getPagination PNull (PNumber 10) = getPagination (PNumber 1) (PNumber 10)"
    using getPagination_offset_limit[of PNull "PNumber 10" 10 2] by simp
  have c: "getPagination (PNumber 2) PUndefined = getPagination (PNumber 2) (PNumber 20)"
    using getPagination_offset_limit[of "PNumber 2" PUndefined 10 2] by simp
  from a b c show ?thesis by (intro conjI)
qed

text \<open>
  Claim C3 as stated gives the exact product for every page number and page size. For
  page number \<open>2^53\<close> and page size 3 the exact product is 27021597764222973, which
  is no double, and the offset returned is 27021597764222972.
\<close>

theorem getPagination_offset_counterexample:
  "getPagination (PNumber 9007199254740992) (PNumber 3) =
     \<lparr>p_take = 3, p_skip = Fin 27021597764222972\<rparr> \<and>
   (9007199254740992 - 1) * 3 = (27021597764222973 :: int)"
proof -
  have a: "round_double 9007199254740991 = Fin 9007199254740991"
    using round_double_int[of 9007199254740991] by simp
  have b: "round_double 27021597764222973 = Fin 27021597764222972"
    by code_simp
  show ?thesis by (simp add: getPagination_def a b)
qed




text \<open>
  Claim C10. With a falsy page number the fetch asks the store for offset 0 and returns
  those rows, as page 1 does, and the envelope's \<^verbatim>\<open>currentPage\<close> is the page number
  as the caller gave it, not 1: the envelope differs from the one of page 1 in
  \<^verbatim>\<open>currentPage\<close> only.
\<close>

theorem fetch_falsy_pageNumber:
  assumes "pn \<in> {PUndefined, PNull, PNumber 0}"
    and "handleConditions conds rf lf af andf sf = Inr query"
    and "findMany coll \<lparr>fa_where = query, fa_orderBy = ob,
            fa_take = p_take (getPagination pn ps), fa_skip = Fin 0\<rparr> = Inr rows"
    and "count_where coll query = Inr totalCount"
  shows "\<exists>env. fetchDataWithPagination pn ps conds coll ob rf lf af andf sf odp = Inr env \<and>
           env_data env = process odp (JArr rows) \<and>
           env_currentPage env = pn \<and> env_currentPage env \<noteq> PNumber 1 \<and>
           fetchDataWithPagination (PNumber 1) ps conds coll ob rf lf af andf sf odp =
             Inr (env\<lparr>env_currentPage := PNumber 1\<rparr>)"
proof -
  have p: "getPagination pn ps = getPagination (PNumber 1) ps"
    using assms(1) by (auto simp: getPagination_def)
  have k: "p_skip (getPagination (PNumber 1) ps) = Fin 0" by (rule getPagination_first_page)
  have ne: "pn \<noteq> PNumber 1" using assms(1) by auto
  show ?thesis
    using assms(2,3,4) ne by (simp add: fetchDataWithPagination_def Let_def p k)
qed

theorem fetch_falsy_pageNumber_witness:
  "\<exists>env. fetchDataWithPagination (PNumber 0) (PNumber 10) []
      \<lparr>findMany = (\<lambda>a. if fa_skip a = Fin 0 then Inr [JStr ''first''] else Inr []),
       count_where = (\<lambda>q. Inr 1), create = (\<lambda>d. Inr d),
       createMany = (\<lambda>d. Inr ()), delete_where = (\<lambda>d. Inr ()), updateMany = (\<lambda>d. Inr ())\<rparr>
      JUndefined [] [] [] [] [] None = Inr env \<and>
     env_data env = JArr [JStr ''first''] \<and> env_currentPage env = PNumber 0"
proof -
  let ?coll = "\<lparr>findMany = (\<lambda>a. if fa_skip a = Fin 0 then Inr [JStr ''first''] else Inr []),
       count_where = (\<lambda>q. Inr 1), create = (\<lambda>d. Inr d),
       createMany = (\<lambda>d. Inr ()), delete_where = (\<lambda>d. Inr ()), updateMany = (\<lambda>d. Inr ())\<rparr>"
  have f: "PNumber 0 \<in> {PUndefined, PNull, PNumber 0}" by simp
  have q: "handleConditions [] [] [] [] [] [] = Inr []" by (simp add: handleConditions_def)
  have r: "findMany ?coll \<lparr>fa_where = [], fa_orderBy = JUndefined,
            fa_take = p_take (getPagination (PNumber 0) (PNumber 10)), fa_skip = Fin 0\<rparr> =
          Inr [JStr ''first'']" by simp
  have c: "count_where ?coll [] = Inr 1" by simp
  from fetch_falsy_pageNumber[OF f q r c, of None] show ?thesis
    by (auto simp: process_def)
qed

section \<open>Properties of date-time normalisation and field projection\<close>

lemma within_date_range:
  assumes "\<bar>t\<bar> \<le> (8640000000000000 :: int)"
  shows "\<not> 8640000000000000 < \<bar>(of_int t :: rat)\<bar>"
proof -
  from assms have "(of_int \<bar>t\<bar> :: rat) \<le> of_int 8640000000000000"
    by (simp only: of_int_le_iff)
  then show ?thesis by simp
qed

lemma new_Date_whole: "\<bar>t\<bar> \<le> 8640000000000000 \<Longrightarrow> new_Date (Fin (of_int t)) = JDate (Fin (of_int t))"
  by (simp add: within_date_range)

lemma new_Date_is_date: "\<exists>t. new_Date x = JDate t"
  by (cases x) simp_all

text \<open>
  Claim C7, as the code has it. A string gives the date at the instant that
  \<^verbatim>\<open>Date.parse\<close> reports, and \<^verbatim>\<open>null\<close> when \<^verbatim>\<open>Date.parse\<close> reports \<^verbatim>\<open>NaN\<close>. For an
  object with a \<^verbatim>\<open>_seconds\<close> property the result is
  \<^verbatim>\<open>new Date(ToNumber(_seconds) * 1000)\<close>, whatever the property holds: a date
  whenever the conversion to a number succeeds (for a number whose milliseconds are whole
  and within the date range the instant that many seconds after the epoch), and the
  conversion's \<^verbatim>\<open>TypeError\<close> when it throws. An object without \<^verbatim>\<open>_seconds\<close> and
  every value that is neither a string nor an object give \<^verbatim>\<open>null\<close>. Nothing else
  throws.
\<close>

theorem toSQLDateTime_cases:
  "(date_parse h s \<noteq> NaN \<longrightarrow> toSQLDateTime h (JStr s) = Inr (new_Date (date_parse h s))) \<and>
   (date_parse h s = Fin (of_int t) \<and> \<bar>t\<bar> \<le> 8640000000000000 \<longrightarrow>
      toSQLDateTime h (JStr s) = Inr (JDate (Fin (of_int t)))) \<and>
   (date_parse h s = NaN \<longrightarrow> toSQLDateTime h (JStr s) = Inr JNull) \<and>
   (''_seconds'' \<in> fst ` set ps \<and> to_number h (get_prop ps ''_seconds'') = Inr x \<longrightarrow>
      toSQLDateTime h (JObj ps) = Inr (new_Date (js_mul x (Fin 1000))) \<and>
      (\<exists>d. toSQLDateTime h (JObj ps) = Inr (JDate d))) \<and>
   (''_seconds'' \<in> fst ` set ps \<and> to_number h (get_prop ps ''_seconds'') = Inl e \<longrightarrow>
      toSQLDateTime h (JObj ps) = Inl e) \<and>
   (''_seconds'' \<in> fst ` set ps \<and> get_prop ps ''_seconds'' = JNum (Fin n) \<and>
    n * 1000 = of_int ms \<and> \<bar>ms\<bar> \<le> 8640000000000000 \<longrightarrow>
      toSQLDateTime h (JObj ps) = Inr (JDate (Fin (of_int ms)))) \<and>
   (''_seconds'' \<notin> fst ` set ps \<longrightarrow> toSQLDateTime h (JObj ps) = Inr JNull) \<and>
   ((\<forall>s. input \<noteq> JStr s) \<and> (\<forall>ps. input \<noteq> JObj ps) \<longrightarrow> toSQLDateTime h input = Inr JNull) \<and>
   (toSQLDateTime h input = Inl e' \<longrightarrow>
      (\<exists>qs. input = JObj qs \<and> ''_seconds'' \<in> fst ` set qs \<and>
            to_number h (get_prop qs ''_seconds'') = Inl e'))"
proof (intro conjI impI)
  assume "date_parse h s \<noteq> NaN"
  then show "toSQLDateTime h (JStr s) = Inr (new_Date (date_parse h s))"
    by (simp add: toSQLDateTime_def)
next
  assume a: "date_parse h s = Fin (of_int t) \<and> \<bar>t\<bar> \<le> 8640000000000000"
  then have "new_Date (Fin (of_int t)) = JDate (Fin (of_int t))" by (simp only: new_Date_whole)
  with a show "toSQLDateTime h (JStr s) = Inr (JDate (Fin (of_int t)))"
    by (simp add: toSQLDateTime_def)
next
  assume "date_parse h s = NaN"
  then show "toSQLDateTime h (JStr s) = Inr JNull" by (simp add: toSQLDateTime_def)
next
  assume a: "''_seconds'' \<in> fst ` set ps \<and> to_number h (get_prop ps ''_seconds'') = Inr x"
  then show r: "toSQLDateTime h (JObj ps) = Inr (new_Date (js_mul x (Fin 1000)))"
    by (simp add: toSQLDateTime_def)
  from new_Date_is_date obtain d where "new_Date (js_mul x (Fin 1000)) = JDate d" ..
  with r show "\<exists>d. toSQLDateTime h (JObj ps) = Inr (JDate d)" by simp
next
  assume "''_seconds'' \<in> fst ` set ps \<and> to_number h (get_prop ps ''_seconds'') = Inl e"
  then show "toSQLDateTime h (JObj ps) = Inl e" by (simp add: toSQLDateTime_def)
next
  assume a: "''_seconds'' \<in> fst ` set ps \<and> get_prop ps ''_seconds'' = JNum (Fin n) \<and>
    n * 1000 = of_int ms \<and> \<bar>ms\<bar> \<le> 8640000000000000"
  then have "\<bar>ms\<bar> < 9007199254740992" by simp
  then have "round_double (of_int ms) = Fin (of_int ms)" by (rule round_double_int)
  with a have m: "js_mul (Fin n) (Fin 1000) = Fin (of_int ms)" by simp
  from a have "new_Date (Fin (of_int ms)) = JDate (Fin (of_int ms))" by (simp only: new_Date_whole)
  with a m show "toSQLDateTime h (JObj ps) = Inr (JDate (Fin (of_int ms)))"
    by (simp add: toSQLDateTime_def)
next
  assume "''_seconds'' \<notin> fst ` set ps"
  then show "toSQLDateTime h (JObj ps) = Inr JNull" by (simp add: toSQLDateTime_def)
next
  assume "(\<forall>s. input \<noteq> JStr s) \<and> (\<forall>ps. input \<noteq> JObj ps)"
  then show "toSQLDateTime h input = Inr JNull" by (cases input) (simp_all add: toSQLDateTime_def)
next
  assume "toSQLDateTime h input = Inl e'"
  then show "\<exists>qs. input = JObj qs \<and> ''_seconds'' \<in> fst ` set qs \<and>
            to_number h (get_prop qs ''_seconds'') = Inl e'"
    by (cases input) (auto simp: toSQLDateTime_def Let_def split: if_splits sum.splits)
qed

theorem toSQLDateTime_cases_witness:
  "toSQLDateTime
      \<lparr>date_parse = (\<lambda>s. if s = ''1969-07-20T20:18:04.000Z'' then Fin (- 14182916000) else NaN),
       coerce = (\<lambda>v. Inr NaN)\<rparr> (JStr ''1969-07-20T20:18:04.000Z'') = Inr (JDate (Fin (- 14182916000))) \<and>
   toSQLDateTime
      \<lparr>date_parse = (\<lambda>s. if s = ''1969-07-20T20:18:04.000Z'' then Fin (- 14182916000) else NaN),
       coerce = (\<lambda>v. Inr NaN)\<rparr> (JStr ''not-a-date'') = Inr JNull \<and>
   toSQLDateTime
      \<lparr>date_parse = (\<lambda>s. if s = ''1969-07-20T20:18:04.000Z'' then Fin (- 14182916000) else NaN),
       coerce = (\<lambda>v. Inr NaN)\<rparr> (JObj [(''_seconds'', JNum (Fin 100))]) = Inr (JDate (Fin 100000)) \<and>
   toSQLDateTime
      \<lparr>date_parse = (\<lambda>s. if s = ''1969-07-20T20:18:04.000Z'' then Fin (- 14182916000) else NaN),
       coerce = (\<lambda>v. Inr NaN)\<rparr> (JObj [(''_seconds'', JBool True)]) = Inr (JDate (Fin 1000)) \<and>
   toSQLDateTime
      \<lparr>date_parse = (\<lambda>s. if s = ''1969-07-20T20:18:04.000Z'' then Fin (- 14182916000) else NaN),
       coerce = (\<lambda>v. Inr NaN)\<rparr> (JObj [(''_seconds'', JUndefined)]) = Inr (JDate NaN) \<and>
   toSQLDateTime
      \<lparr>date_parse = (\<lambda>s. if s = ''1969-07-20T20:18:04.000Z'' then Fin (- 14182916000) else NaN),
       coerce = (\<lambda>v. Inr NaN)\<rparr> (JObj [(''_seconds'', JObj [(''toString'', JNum (Fin 0))])]) = Inl TypeError \<and>
   toSQLDateTime
      \<lparr>date_parse = (\<lambda>s. if s = ''1969-07-20T20:18:04.000Z'' then Fin (- 14182916000) else NaN),
       coerce = (\<lambda>v. Inr NaN)\<rparr> (JObj [(''seconds'', JNum (Fin 100))]) = Inr JNull \<and>
   toSQLDateTime
      \<lparr>date_parse = (\<lambda>s. if s = ''1969-07-20T20:18:04.000Z'' then Fin (- 14182916000) else NaN),
       coerce = (\<lambda>v. Inr NaN)\<rparr> (JNum (Fin 5)) = Inr JNull"
proof -
  let ?h = "\<lparr>date_parse = (\<lambda>s. if s = ''1969-07-20T20:18:04.000Z'' then Fin (- 14182916000) else NaN),
       coerce = (\<lambda>v. Inr NaN)\<rparr>"
  note t = toSQLDateTime_cases[of ?h]
  have k: "round_double 1000 = Fin 1000" using round_double_int[of 1000] by simp
  have a: "toSQLDateTime ?h (JStr ''1969-07-20T20:18:04.000Z'') = Inr (JDate (Fin (- 14182916000)))"
    using t[of "''1969-07-20T20:18:04.000Z''" "- 14182916000" "[]" NaN TypeError 0 0 JNull TypeError]
    by simp
  have b: "toSQLDateTime ?h (JStr ''not-a-date'') = Inr JNull"
    using t[of "''not-a-date''" 0 "[]" NaN TypeError 0 0 JNull TypeError] by simp
  have c: "toSQLDateTime ?h (JObj [(''_seconds'', JNum (Fin 100))]) = Inr (JDate (Fin 100000))"
    using t[of "''x''" 0 "[(''_seconds'', JNum (Fin 100))]" NaN TypeError 100 100000 JNull TypeError]
    by (simp add: get_prop_def)
  have d: "toSQLDateTime ?h (JObj [(''_seconds'', JBool True)]) = Inr (JDate (Fin 1000))"
    using t[of "''x''" 0 "[(''_seconds'', JBool True)]" "Fin 1" TypeError 0 0 JNull TypeError]
    by (simp add: get_prop_def k)
  have e: "toSQLDateTime ?h (JObj [(''_seconds'', JUndefined)]) = Inr (JDate NaN)"
    using t[of "''x''" 0 "[(''_seconds'', JUndefined)]" NaN TypeError 0 0 JNull TypeError]
    by (simp add: get_prop_def)
  have f: "toSQLDateTime ?h (JObj [(''_seconds'', JObj [(''toString'', JNum (Fin 0))])]) =
      Inl TypeError"
    using t[of "''x''" 0 "[(''_seconds'', JObj [(''toString'', JNum (Fin 0))])]" NaN TypeError
        0 0 JNull TypeError]
    by (simp add: get_prop_def)
  have g: "toSQLDateTime ?h (JObj [(''seconds'', JNum (Fin 100))]) = Inr JNull"
    using t[of "''x''" 0 "[(''seconds'', JNum (Fin 100))]" NaN TypeError 0 0 JNull TypeError]
    by simp
  have i: "toSQLDateTime ?h (JNum (Fin 5)) = Inr JNull"
    using t[of "''x''" 0 "[]" NaN TypeError 0 0 "JNum (Fin 5)" TypeError] by simp
  from a b c d e f g i show ?thesis by (intro conjI)
qed

text \<open>
  Claim C7 as stated returns \<^verbatim>\<open>null\<close> unless \<^verbatim>\<open>_seconds\<close> is numeric, and never
  raises. For \<^verbatim>\<open>{_seconds: null}\<close> the result is the date of the epoch, and for
  \<^verbatim>\<open>{_seconds: {toString: 0}}\<close> the multiplication throws a \<^verbatim>\<open>TypeError\<close>.
\<close>

theorem toSQLDateTime_counterexample:
  "toSQLDateTime \<lparr>date_parse = (\<lambda>s. NaN), coerce = (\<lambda>v. Inr NaN)\<rparr> (JObj [(''_seconds'', JNull)]) = Inr (JDate (Fin 0)) \<and>
   toSQLDateTime \<lparr>date_parse = (\<lambda>s. NaN), coerce = (\<lambda>v. Inr NaN)\<rparr> (JObj [(''_seconds'', JNull)]) \<noteq> Inr JNull \<and>
   toSQLDateTime \<lparr>date_parse = (\<lambda>s. NaN), coerce = (\<lambda>v. Inr NaN)\<rparr> (JObj [(''_seconds'', JObj [(''toString'', JNum (Fin 0))])]) =
     Inl TypeError"
  by (simp add: toSQLDateTime_def get_prop_def round_double_zero)

text \<open>
  Claim C6 fails on the code. A date field outside the allowlist is deleted and then set
  again by the date step, to \<^verbatim>\<open>toSQLDateTime(undefined)\<close>, which is \<^verbatim>\<open>null\<close>: the
  result has a key that the allowlist does not name, and its value is \<^verbatim>\<open>null\<close>.
\<close>

theorem transformData_readds_date_field:
  "transformData h (JObj [(''createdAt'', JStr ''2020-01-01''), (''name'', JStr ''x'')])
      (Some \<lparr>opt_dateFields = Some [''createdAt''], opt_allFields = Some [''name'']\<rparr>) =
     Inr [(''name'', JStr ''x''), (''createdAt'', JNull)]"
  by (simp add: transformData_def transformKey_def spread_def delete_prop_def get_prop_def
      toSQLDateTime_def)

section \<open>Properties of the mutating operations\<close>

text \<open>Every mutating operation calls \<^verbatim>\<open>$disconnect\<close> exactly once, on every path.\<close>

lemma disconnect_once:
  "length (filter (\<lambda>e. e = Disconnect) (snd (createData prisma coll d))) = 1"
  "length (filter (\<lambda>e. e = Disconnect) (snd (batchCreateData prisma coll d))) = 1"
  "length (filter (\<lambda>e. e = Disconnect) (snd (deleteData prisma coll d))) = 1"
  "length (filter (\<lambda>e. e = Disconnect) (snd (updateFields prisma coll d i))) = 1"
  by (simp_all add: createData_def batchCreateData_def deleteData_def updateFields_def
      finally_disconnect_def split: sum.splits)

text \<open>
  A store failure in \<^verbatim>\<open>createData\<close>, \<^verbatim>\<open>batchCreateData\<close> and \<^verbatim>\<open>deleteData\<close>
  becomes a result with \<^verbatim>\<open>success: false\<close> and an \<^verbatim>\<open>error\<close> message.
\<close>

lemma store_failure_result:
  "create coll (JObj [(''data'', d)]) = Inl e \<Longrightarrow> disconnect prisma = Inr () \<Longrightarrow>
     fst (createData prisma coll d) =
       Inr (JObj [(''success'', JBool False), (''error'', JStr ''Error creating data'')])"
  "createMany coll (JObj [(''data'', d)]) = Inl e \<Longrightarrow> disconnect prisma = Inr () \<Longrightarrow>
     fst (batchCreateData prisma coll d) =
       Inr (JObj [(''success'', JBool False), (''error'', JStr ''Error creating data'')])"
  "delete_where coll (JObj [(''where'', JObj [(''id'', i)])]) = Inl e \<Longrightarrow>
   disconnect prisma = Inr () \<Longrightarrow>
     fst (deleteData prisma coll i) =
       Inr (JObj [(''success'', JBool False), (''error'', JStr ''Error deleting data'')])"
  by (simp_all add: createData_def batchCreateData_def deleteData_def finally_disconnect_def)

text \<open>
  Claim C8 fails on the code for \<^verbatim>\<open>updateFields\<close>. When \<^verbatim>\<open>updateMany\<close> rejects, the
  result is \<^verbatim>\<open>{success: false}\<close> with no \<^verbatim>\<open>error\<close> property, while
  \<^verbatim>\<open>deleteData\<close> on the same failure returns its message. The connection is released
  once in both.
\<close>

theorem updateFields_failure_has_no_error:
  "updateFields \<lparr>disconnect = Inr ()\<rparr>
      \<lparr>findMany = (\<lambda>a. Inr []), count_where = (\<lambda>q. Inr 0), create = (\<lambda>d. Inr d),
       createMany = (\<lambda>d. Inr ()), delete_where = (\<lambda>d. Inr ()),
       updateMany = (\<lambda>d. Inl (StoreError ''connection lost''))\<rparr>
      (JObj [(''name'', JStr ''x'')]) (JStr ''42'') =
     (Inr (JObj [(''success'', JBool False)]), [StoreCall, ConsoleError, Disconnect]) \<and>
   get_prop [(''success'', JBool False)] ''error'' = JUndefined \<and>
   deleteData \<lparr>disconnect = Inr ()\<rparr>
      \<lparr>findMany = (\<lambda>a. Inr []), count_where = (\<lambda>q. Inr 0), create = (\<lambda>d. Inr d),
       createMany = (\<lambda>d. Inr ()),
       delete_where = (\<lambda>d. Inl (StoreError ''connection lost'')),
       updateMany = (\<lambda>d. Inr ())\<rparr>
      (JStr ''42'') =
     (Inr (JObj [(''success'', JBool False), (''error'', JStr ''Error deleting data'')]),
      [StoreCall, ConsoleError, Disconnect])"
  by (simp add: updateFields_def deleteData_def finally_disconnect_def get_prop_def)

end
